theory Spec2Isabelle
  imports Complex_Main
begin

section \<open>The container monitor of option-5-docker/src/monitor.py\<close>

text \<open>
  The theory embeds \<^verbatim>\<open>ContainerMonitor\<close>: configuration loading, the connectivity
  probe, the heartbeat, the target sweep with its batched metric submission, the health
  view and the main loop. Everything the program reads from outside (environment
  variables, the clock, the sockets, the answers of the CloudWatch client) is an
  explicit argument; everything it changes (the fields of the monitor object, the calls
  received by the CloudWatch client) is returned. Log output is not modelled.
\<close>

subsection \<open>Exceptions\<close>

text \<open>
  \<open>PyException c\<close> is any instance of Python's \<^verbatim>\<open>Exception\<close>, named by its class
  (\<^verbatim>\<open>ValueError\<close>, \<^verbatim>\<open>ClientError\<close>, \<^verbatim>\<open>socket.gaierror\<close>, ...). The two other
  constructors are the \<^verbatim>\<open>BaseException\<close>s that \<^verbatim>\<open>except Exception\<close> does not catch:
  the interrupt, and the \<^verbatim>\<open>sys.exit\<close> of the signal handler.
\<close>

datatype exc = PyException string | KeyboardInterrupt | SystemExit int

fun is_Exception :: "exc \<Rightarrow> bool" where
  "is_Exception (PyException c) = True"
| "is_Exception KeyboardInterrupt = False"
| "is_Exception (SystemExit n) = False"

text \<open>An outcome of an outside call is benign when it returns or raises an \<^verbatim>\<open>Exception\<close>.\<close>

fun benign :: "exc + 'a \<Rightarrow> bool" where
  "benign (Inl e) = is_Exception e"
| "benign (Inr v) = True"

subsection \<open>Strings\<close>

text \<open>
  A Python \<^verbatim>\<open>str\<close> is modelled as a \<open>string\<close>, one \<open>char\<close> per code point; the model
  covers the code points below 256. \<open>is_space\<close> is \<^verbatim>\<open>str.isspace\<close> on one of them.
\<close>

definition is_space :: "char \<Rightarrow> bool" where
  "is_space c =
     (let n = (of_char c :: nat)
      in (9 \<le> n \<and> n \<le> 13) \<or> (28 \<le> n \<and> n \<le> 32) \<or> n = 133 \<or> n = 160)"

definition lstrip :: "string \<Rightarrow> string" where
  "lstrip s = dropWhile is_space s"

definition rstrip :: "string \<Rightarrow> string" where
  "rstrip s = rev (dropWhile is_space (rev s))"

definition strip :: "string \<Rightarrow> string" where
  "strip s = rstrip (lstrip s)"

text \<open>\<^verbatim>\<open>s.split(',')\<close>: the fields between the commas, at least one field.\<close>

fun split_comma :: "string \<Rightarrow> string list" where
  "split_comma [] = [[]]"
| "split_comma (c # cs) =
     (if c = CHR '','' then [] # split_comma cs
      else (case split_comma cs of
              [] \<Rightarrow> [[c]]
            | f # fs \<Rightarrow> (c # f) # fs))"

text \<open>\<^verbatim>\<open>','.join(hs)\<close>, used to state what the parser returns.\<close>

fun join_comma :: "string list \<Rightarrow> string" where
  "join_comma [] = []"
| "join_comma [h] = h"
| "join_comma (h # g # hs) = h @ CHR '','' # join_comma (g # hs)"

subsection \<open>Parsing the target list\<close>

text \<open>
  \<^verbatim>\<open>
  def _parse_targets(self, targets_str):
      if not targets_str:
          return []
      return [target.strip() for target in targets_str.split(',') if target.strip()]
  \<close>
\<close>

definition parse_targets :: "string \<Rightarrow> string list" where
  "parse_targets targets_str =
     (if targets_str = [] then []
      else map strip (filter (\<lambda>target. strip target \<noteq> []) (split_comma targets_str)))"

text \<open>A host as the parser returns it: not empty, no comma, no white space around it.\<close>

definition plain_host :: "string \<Rightarrow> bool" where
  "plain_host h = (h \<noteq> [] \<and> CHR '','' \<notin> set h \<and> \<not> is_space (hd h) \<and> \<not> is_space (last h))"

subsection \<open>Reading the environment\<close>

type_synonym environ = "string \<rightharpoonup> string"

text \<open>\<^verbatim>\<open>os.getenv(key, default)\<close>.\<close>

definition getenv :: "environ \<Rightarrow> string \<Rightarrow> string \<Rightarrow> string" where
  "getenv env key dflt = (case env key of None \<Rightarrow> dflt | Some v \<Rightarrow> v)"

text \<open>\<^verbatim>\<open>not v\<close> for \<^verbatim>\<open>v = os.getenv(key)\<close>: unset or empty.\<close>

fun falsy :: "string option \<Rightarrow> bool" where
  "falsy None = True"
| "falsy (Some v) = (v = [])"

definition is_digit :: "char \<Rightarrow> bool" where
  "is_digit c = (48 \<le> (of_char c :: nat) \<and> (of_char c :: nat) \<le> 57)"

definition digit_val :: "char \<Rightarrow> nat" where
  "digit_val c = of_char c - 48"

text \<open>
  The digits after the first one, in base ten; one underscore may stand between two
  digits, as \<^verbatim>\<open>int()\<close> allows.
\<close>

fun digits_value :: "nat \<Rightarrow> string \<Rightarrow> nat option" where
  "digits_value acc [] = Some acc"
| "digits_value acc [c] = (if is_digit c then Some (10 * acc + digit_val c) else None)"
| "digits_value acc (c # d # cs) =
     (if is_digit c then digits_value (10 * acc + digit_val c) (d # cs)
      else if c = CHR ''_'' \<and> is_digit d then digits_value (10 * acc + digit_val d) cs
      else None)"

text \<open>
  The white space that \<^verbatim>\<open>int()\<close> drops around a number: that of C's \<^verbatim>\<open>isspace\<close>
  (tab to carriage return, and the blank) and, from code point 128 on, that of
  \<^verbatim>\<open>str.isspace\<close>. The separators U+001C to U+001F, which \<^verbatim>\<open>str.strip\<close> drops, are
  kept by \<^verbatim>\<open>int()\<close> and make it raise.
\<close>

definition is_int_space :: "char \<Rightarrow> bool" where
  "is_int_space c =
     (let n = (of_char c :: nat)
      in (9 \<le> n \<and> n \<le> 13) \<or> n = 32 \<or> n = 133 \<or> n = 160)"

definition int_strip :: "string \<Rightarrow> string" where
  "int_strip s = rev (dropWhile is_int_space (rev (dropWhile is_int_space s)))"

text \<open>
  \<^verbatim>\<open>int(s)\<close> on a \<^verbatim>\<open>str\<close>: white space around the number is dropped, one sign may
  lead, at least one digit follows; anything else raises \<^verbatim>\<open>ValueError\<close>. (CPython's
  limit on the number of digits is not modelled.)
\<close>

definition py_int :: "string \<Rightarrow> exc + int" where
  "py_int s =
     (let t = int_strip s;
          (neg, body) =
            (case t of
               [] \<Rightarrow> (False, [])
             | c # cs \<Rightarrow>
                 if c = CHR ''-'' then (True, cs)
                 else if c = CHR ''+'' then (False, cs)
                 else (False, t))
      in case body of
           [] \<Rightarrow> Inl (PyException ''ValueError'')
         | c # cs \<Rightarrow>
             if is_digit c then
               (case digits_value (digit_val c) cs of
                  None \<Rightarrow> Inl (PyException ''ValueError'')
                | Some n \<Rightarrow> Inr (if neg then - int n else int n))
             else Inl (PyException ''ValueError''))"

text \<open>\<^verbatim>\<open>str.lower\<close> on the code points below 256.\<close>

definition lower_char :: "char \<Rightarrow> char" where
  "lower_char c =
     (let n = (of_char c :: nat)
      in if (65 \<le> n \<and> n \<le> 90) \<or> (192 \<le> n \<and> n \<le> 222 \<and> n \<noteq> 215)
         then char_of (n + 32) else c)"

definition lower :: "string \<Rightarrow> string" where
  "lower s = map lower_char s"

subsection \<open>Configuration\<close>

record config =
  aws_access_key_id :: "string option"
  aws_secret_access_key :: "string option"
  aws_region :: string
  container_name :: string
  heartbeat_interval :: int
  cloudwatch_namespace :: string
  monitor_targets :: "string list"
  target_port :: int
  target_timeout :: int
  enable_health_endpoint :: bool
  health_port :: int

text \<open>
  \<^verbatim>\<open>_load_config\<close>. The dictionary display evaluates its entries in order, so the
  first integer that does not parse raises its \<^verbatim>\<open>ValueError\<close> before the check of the
  two keys, which is the only validation: \<^verbatim>\<open>sys.exit(1)\<close> when either is unset or
  empty. \<open>hostname\<close> is what \<^verbatim>\<open>socket.gethostname()\<close> returns.
\<close>

definition load_config :: "environ \<Rightarrow> string \<Rightarrow> exc + config" where
  "load_config env hostname =
     (case py_int (getenv env ''HEARTBEAT_INTERVAL'' ''300'') of
        Inl e \<Rightarrow> Inl e
      | Inr hi \<Rightarrow>
     (case py_int (getenv env ''TARGET_PORT'' ''80'') of
        Inl e \<Rightarrow> Inl e
      | Inr tp \<Rightarrow>
     (case py_int (getenv env ''TARGET_TIMEOUT'' ''5'') of
        Inl e \<Rightarrow> Inl e
      | Inr tt \<Rightarrow>
     (case py_int (getenv env ''HEALTH_PORT'' ''8080'') of
        Inl e \<Rightarrow> Inl e
      | Inr hp \<Rightarrow>
          let config = \<lparr>
                aws_access_key_id = env ''AWS_ACCESS_KEY_ID'',
                aws_secret_access_key = env ''AWS_SECRET_ACCESS_KEY'',
                aws_region = getenv env ''AWS_REGION'' ''us-east-1'',
                container_name = getenv env ''CONTAINER_NAME'' hostname,
                heartbeat_interval = hi,
                cloudwatch_namespace =
                  getenv env ''CLOUDWATCH_NAMESPACE'' ''ContainerMonitoring/Heartbeat'',
                monitor_targets = parse_targets (getenv env ''MONITOR_TARGETS'' []),
                target_port = tp,
                target_timeout = tt,
                enable_health_endpoint =
                  (lower (getenv env ''ENABLE_HEALTH_ENDPOINT'' ''false'') = ''true''),
                health_port = hp \<rparr>
          in if falsy (aws_access_key_id config) \<or> falsy (aws_secret_access_key config)
             then Inl (SystemExit 1)
             else Inr config))))"

text \<open>\<^verbatim>\<open>str(n)\<close> on a natural number and on an integer.\<close>

function str_nat :: "nat \<Rightarrow> string" where
  "str_nat n =
     (if n < 10 then [char_of (48 + n)]
      else str_nat (n div 10) @ [char_of (48 + n mod 10)])"
  by pat_completeness auto
termination
  by (relation "measure id") auto

declare str_nat.simps [simp del]

definition str_int :: "int \<Rightarrow> string" where
  "str_int i = (if i < 0 then CHR ''-'' # str_nat (nat (- i)) else str_nat (nat i))"

definition zfill :: "nat \<Rightarrow> string \<Rightarrow> string" where
  "zfill width s = replicate (width - length s) CHR ''0'' @ s"

subsection \<open>Time\<close>

text \<open>
  A \<^verbatim>\<open>datetime\<close> in UTC, by its calendar fields, and its \<^verbatim>\<open>isoformat()\<close>. The
  readings of \<^verbatim>\<open>time.time()\<close> are real numbers (the program has floats).
\<close>

record datetime =
  dt_year :: nat
  dt_month :: nat
  dt_day :: nat
  dt_hour :: nat
  dt_minute :: nat
  dt_second :: nat
  dt_microsecond :: nat

definition isoformat :: "datetime \<Rightarrow> string" where
  "isoformat d =
     zfill 4 (str_nat (dt_year d)) @ ''-'' @ zfill 2 (str_nat (dt_month d)) @ ''-'' @
     zfill 2 (str_nat (dt_day d)) @ ''T'' @ zfill 2 (str_nat (dt_hour d)) @ '':'' @
     zfill 2 (str_nat (dt_minute d)) @ '':'' @ zfill 2 (str_nat (dt_second d)) @
     (if dt_microsecond d = 0 then [] else ''.'' @ zfill 6 (str_nat (dt_microsecond d))) @
     ''+00:00''"

subsection \<open>Metric points and the CloudWatch client\<close>

datatype metric_unit = Count | Seconds | Milliseconds

record metric =
  MetricName :: string
  Dimensions :: "(string \<times> string) list"
  Value :: real
  Unit :: metric_unit
  Timestamp :: datetime

record target_entry =
  online :: bool
  response_time :: real
  last_check :: string

text \<open>
  The monitor object. The field \<open>cloudwatch\<close> stands for the client: it is the list of
  the \<^verbatim>\<open>put_metric_data\<close> calls the client has received so far, each with its
  namespace and its metric data, whether the call then returned or raised.
\<close>

record monitor =
  running :: bool
  start_time :: real
  last_heartbeat :: "datetime option"
  target_status :: "string \<rightharpoonup> target_entry"
  cloudwatch :: "(string \<times> metric list) list"

text \<open>
  The answers of the metrics sink: \<open>sink n\<close> is what the \<open>n\<close>-th call of
  \<^verbatim>\<open>put_metric_data\<close> in the life of the process does, return or raise.
\<close>

type_synonym sink = "nat \<Rightarrow> exc + unit"

definition put_metric_data :: "sink \<Rightarrow> string \<Rightarrow> metric list \<Rightarrow> monitor \<Rightarrow> exc option \<times> monitor" where
  "put_metric_data sink Namespace MetricData m =
     (let m' = m\<lparr>cloudwatch := cloudwatch m @ [(Namespace, MetricData)]\<rparr>
      in case sink (length (cloudwatch m)) of
           Inl e \<Rightarrow> (Some e, m')
         | Inr u \<Rightarrow> (None, m'))"

text \<open>
  \<^verbatim>\<open>try: ... except Exception as e: logger.error(...)\<close> around a block that ends
  with the state \<open>s\<close>, normally or by raising: an \<^verbatim>\<open>Exception\<close> is swallowed, anything
  else goes on.
\<close>

fun except_Exception :: "exc option \<times> 's \<Rightarrow> exc option \<times> 's" where
  "except_Exception (None, s) = (None, s)"
| "except_Exception (Some e, s) = (if is_Exception e then (None, s) else (Some e, s))"

subsection \<open>The heartbeat\<close>

record heartbeat_env =
  hb_now :: datetime
  hb_time :: real

definition heartbeat_metrics :: "config \<Rightarrow> datetime \<Rightarrow> real \<Rightarrow> metric list" where
  "heartbeat_metrics cfg current_time uptime =
     [\<lparr>MetricName = ''ContainerHeartbeat'',
       Dimensions = [(''ContainerName'', container_name cfg), (''Region'', aws_region cfg)],
       Value = 1, Unit = Count, Timestamp = current_time\<rparr>,
      \<lparr>MetricName = ''ContainerUptime'',
       Dimensions = [(''ContainerName'', container_name cfg), (''Region'', aws_region cfg)],
       Value = uptime, Unit = Seconds, Timestamp = current_time\<rparr>]"

text \<open>
  \<^verbatim>\<open>send_heartbeat\<close>: \<open>hb_now\<close> is \<^verbatim>\<open>datetime.now(timezone.utc)\<close>, \<open>hb_time\<close> is
  \<^verbatim>\<open>time.time()\<close>. The assignment to \<^verbatim>\<open>self.last_heartbeat\<close> follows the sink call
  inside the \<^verbatim>\<open>try\<close>.
\<close>

definition send_heartbeat :: "config \<Rightarrow> sink \<Rightarrow> heartbeat_env \<Rightarrow> monitor \<Rightarrow> exc option \<times> monitor" where
  "send_heartbeat cfg sink env m =
     except_Exception
       (let current_time = hb_now env;
            uptime = hb_time env - start_time m;
            metrics = heartbeat_metrics cfg current_time uptime
        in case put_metric_data sink (cloudwatch_namespace cfg) metrics m of
             (Some e, m1) \<Rightarrow> (Some e, m1)
           | (None, m1) \<Rightarrow> (None, m1\<lparr>last_heartbeat := Some current_time\<rparr>))"

subsection \<open>The connectivity probe\<close>

text \<open>
  What one probe meets outside: the two clock readings (at entry, and after the
  connection attempt or in the handler), and what each socket call does.
  \<^verbatim>\<open>connect_ex\<close> returns an error number, 0 for a completed handshake, or raises (a
  host that does not resolve).
\<close>

record probe_env =
  time_start :: real
  time_end :: real
  socket_socket :: "exc + unit"
  sock_settimeout :: "exc + unit"
  sock_connect_ex :: "string \<Rightarrow> int \<Rightarrow> exc + int"
  sock_close :: "exc + unit"

text \<open>
  \<^verbatim>\<open>sock.settimeout(t)\<close> raises \<^verbatim>\<open>ValueError\<close> on a negative value; what it does
  otherwise is left to the outside.
\<close>

definition settimeout :: "probe_env \<Rightarrow> int \<Rightarrow> exc + unit" where
  "settimeout env t = (if t < 0 then Inl (PyException ''ValueError'') else sock_settimeout env)"

definition connect_attempt :: "config \<Rightarrow> probe_env \<Rightarrow> string \<Rightarrow> exc + int" where
  "connect_attempt cfg env target_ip =
     (case socket_socket env of
        Inl e \<Rightarrow> Inl e
      | Inr sock \<Rightarrow>
     (case settimeout env (target_timeout cfg) of
        Inl e \<Rightarrow> Inl e
      | Inr u \<Rightarrow>
     (case sock_connect_ex env target_ip (target_port cfg) of
        Inl e \<Rightarrow> Inl e
      | Inr result \<Rightarrow>
     (case sock_close env of
        Inl e \<Rightarrow> Inl e
      | Inr u \<Rightarrow> Inr result))))"

definition check_target_connectivity :: "config \<Rightarrow> probe_env \<Rightarrow> string \<Rightarrow> exc + bool \<times> real" where
  "check_target_connectivity cfg env target_ip =
     (let start_time = time_start env
      in case connect_attempt cfg env target_ip of
           Inr result \<Rightarrow>
             (let duration = (time_end env - start_time) * 1000;
                  is_online = (result = 0)
              in Inr (is_online, duration))
         | Inl e \<Rightarrow>
             if is_Exception e
             then (let duration = (time_end env - start_time) * 1000
                   in Inr (False, duration))
             else Inl e)"

subsection \<open>The target sweep\<close>

record sweep_env =
  sweep_now :: datetime
  probe :: "nat \<Rightarrow> probe_env"

definition target_metrics :: "config \<Rightarrow> datetime \<Rightarrow> string \<Rightarrow> bool \<Rightarrow> real \<Rightarrow> metric list" where
  "target_metrics cfg current_time target is_online latency =
     \<lparr>MetricName = ''TargetStatus'',
      Dimensions = [(''ContainerName'', container_name cfg), (''TargetIP'', target),
                    (''TargetPort'', str_int (target_port cfg))],
      Value = (if is_online then 1 else 0), Unit = Count, Timestamp = current_time\<rparr> #
     (if is_online then
        [\<lparr>MetricName = ''TargetResponseTime'',
          Dimensions = [(''ContainerName'', container_name cfg), (''TargetIP'', target),
                        (''TargetPort'', str_int (target_port cfg))],
          Value = latency, Unit = Milliseconds, Timestamp = current_time\<rparr>]
      else [])"

text \<open>
  The loop over \<^verbatim>\<open>self.config['monitor_targets']\<close>; \<open>i\<close> counts the probes of the
  sweep. Each round stores the target's entry in \<^verbatim>\<open>self.target_status\<close> at once and
  appends the target's metric points.
\<close>

fun probe_targets ::
  "config \<Rightarrow> sweep_env \<Rightarrow> nat \<Rightarrow> string list \<Rightarrow> monitor \<times> metric list \<Rightarrow>
     exc option \<times> monitor \<times> metric list" where
  "probe_targets cfg env i [] (m, metrics) = (None, m, metrics)"
| "probe_targets cfg env i (target # rest) (m, metrics) =
     (case check_target_connectivity cfg (probe env i) target of
        Inl e \<Rightarrow> (Some e, m, metrics)
      | Inr (is_online, latency) \<Rightarrow>
          probe_targets cfg env (Suc i) rest
            (m\<lparr>target_status := (target_status m)(target \<mapsto>
                 \<lparr>online = is_online, response_time = latency,
                  last_check = isoformat (sweep_now env)\<rparr>)\<rparr>,
             metrics @ target_metrics cfg (sweep_now env) target is_online latency))"

text \<open>
  \<^verbatim>\<open>
  for i in range(0, len(metrics), 20):
      batch = metrics[i:i+20]
      self.cloudwatch.put_metric_data(Namespace=..., MetricData=batch)
  \<close>
  A call that raises ends the loop.
\<close>

function send_batches :: "sink \<Rightarrow> string \<Rightarrow> metric list \<Rightarrow> nat \<Rightarrow> monitor \<Rightarrow> exc option \<times> monitor" where
  "send_batches sink ns metrics i m =
     (if i < length metrics then
        (case put_metric_data sink ns (take 20 (drop i metrics)) m of
           (Some e, m1) \<Rightarrow> (Some e, m1)
         | (None, m1) \<Rightarrow> send_batches sink ns metrics (i + 20) m1)
      else (None, m))"
  by pat_completeness auto
termination
  by (relation "measure (\<lambda>(sink, ns, metrics, i, m). length metrics - i)") auto

declare send_batches.simps [simp del]

definition send_target_metrics :: "config \<Rightarrow> sink \<Rightarrow> sweep_env \<Rightarrow> monitor \<Rightarrow> exc option \<times> monitor" where
  "send_target_metrics cfg sink env m =
     (if monitor_targets cfg = [] then (None, m)
      else except_Exception
        (case probe_targets cfg env 0 (monitor_targets cfg) (m, []) of
           (Some e, m1, metrics) \<Rightarrow> (Some e, m1)
         | (None, m1, metrics) \<Rightarrow>
             if metrics \<noteq> [] then send_batches sink (cloudwatch_namespace cfg) metrics 0 m1
             else (None, m1)))"

subsection \<open>The health view\<close>

text \<open>
  The document of \<^verbatim>\<open>/health\<close>, its keys prefixed with \<open>health_\<close>; \<open>None\<close> is JSON's
  \<^verbatim>\<open>null\<close>. \<open>round1\<close> is \<^verbatim>\<open>round(uptime, 1)\<close> up to the rounding of ties. The
  request reads the clock as the heartbeat does, and the fields of the monitor as they
  are at that moment.
\<close>

record health_data =
  health_status :: string
  health_container_name :: string
  health_uptime_seconds :: real
  health_last_heartbeat :: "string option"
  health_target_status :: "(string \<rightharpoonup> target_entry) option"
  health_timestamp :: string

definition round1 :: "real \<Rightarrow> real" where
  "round1 x = real_of_int (round (x * 10)) / 10"

definition health :: "config \<Rightarrow> heartbeat_env \<Rightarrow> monitor \<Rightarrow> health_data" where
  "health cfg env m =
     (let uptime = hb_time env - start_time m
      in \<lparr>health_status = (if running m then ''healthy'' else ''unhealthy''),
          health_container_name = container_name cfg,
          health_uptime_seconds = round1 uptime,
          health_last_heartbeat =
            (case last_heartbeat m of None \<Rightarrow> None | Some d \<Rightarrow> Some (isoformat d)),
          health_target_status =
            (if monitor_targets cfg \<noteq> [] then Some (target_status m) else None),
          health_timestamp = isoformat (hb_now env)\<rparr>)"

subsection \<open>Construction and the main loop\<close>

text \<open>
  \<^verbatim>\<open>__init__\<close>: the configuration, then the fields, then the client and its test call
  (\<open>client_check\<close>), any \<^verbatim>\<open>Exception\<close> of which ends the process with
  \<^verbatim>\<open>sys.exit(1)\<close>.
\<close>

definition init :: "environ \<Rightarrow> string \<Rightarrow> real \<Rightarrow> exc + unit \<Rightarrow> exc + config \<times> monitor" where
  "init env hostname now client_check =
     (case load_config env hostname of
        Inl e \<Rightarrow> Inl e
      | Inr cfg \<Rightarrow>
          (let m = \<lparr>running = False, start_time = now, last_heartbeat = None,
                    target_status = Map.empty, cloudwatch = []\<rparr>
           in case client_check of
                Inl e \<Rightarrow> if is_Exception e then Inl (SystemExit 1) else Inl e
              | Inr u \<Rightarrow> Inr (cfg, m)))"

text \<open>
  One round of the loop meets: what ends the sleep early (the \<^verbatim>\<open>SystemExit\<close> of the
  signal handler, an interrupt), whether \<^verbatim>\<open>stop()\<close> was called meanwhile, and the
  outside of the heartbeat and of the sweep. \<^verbatim>\<open>time.sleep\<close> raises \<^verbatim>\<open>ValueError\<close> on
  a negative length, and \<^verbatim>\<open>OverflowError\<close> on a whole number of seconds that does not
  fit CPython's timeout of 64-bit nanoseconds, that is above \<open>max_sleep\<close>.
\<close>

record tick_env =
  sleep_raises :: "exc option"
  stop_called :: bool
  tick_heartbeat :: heartbeat_env
  tick_sweep :: sweep_env

definition max_sleep :: int where
  "max_sleep = 9223372036"

definition sleep :: "int \<Rightarrow> tick_env \<Rightarrow> exc option" where
  "sleep secs t =
     (if secs < 0 then Some (PyException ''ValueError'')
      else if max_sleep < secs then Some (PyException ''OverflowError'')
      else sleep_raises t)"

text \<open>The heartbeat and, with targets configured, the sweep.\<close>

definition heartbeat_and_sweep :: "config \<Rightarrow> sink \<Rightarrow> tick_env \<Rightarrow> monitor \<Rightarrow> exc option \<times> monitor" where
  "heartbeat_and_sweep cfg sink t m =
     (case send_heartbeat cfg sink (tick_heartbeat t) m of
        (Some e, m1) \<Rightarrow> (Some e, m1)
      | (None, m1) \<Rightarrow>
          if monitor_targets cfg \<noteq> [] then send_target_metrics cfg sink (tick_sweep t) m1
          else (None, m1))"

text \<open>
  The \<^verbatim>\<open>while self.running\<close> loop over the rounds given: \<open>Looping\<close> when the loop
  stands at its head with the flag set after the last of them, \<open>Left None\<close> when it
  ended by the flag, \<open>Left (Some e)\<close> when \<open>e\<close> was raised inside it.
\<close>

datatype loop_state = Looping | Left "exc option"

fun monitoring_loop :: "config \<Rightarrow> sink \<Rightarrow> tick_env list \<Rightarrow> monitor \<Rightarrow> loop_state \<times> monitor" where
  "monitoring_loop cfg sink [] m = (if running m then (Looping, m) else (Left None, m))"
| "monitoring_loop cfg sink (t # ts) m =
     (if \<not> running m then (Left None, m)
      else case sleep (heartbeat_interval cfg) t of
             Some e \<Rightarrow> (Left (Some e), m)
           | None \<Rightarrow>
               (let m0 = (if stop_called t then m\<lparr>running := False\<rparr> else m)
                in if \<not> running m0 then (Left None, m0)
                   else case heartbeat_and_sweep cfg sink t m0 of
                          (Some e, m1) \<Rightarrow> (Left (Some e), m1)
                        | (None, m1) \<Rightarrow> monitoring_loop cfg sink ts m1))"

text \<open>
  \<^verbatim>\<open>run\<close>: the first heartbeat and sweep stand before the \<^verbatim>\<open>try\<close>; the loop's
  \<^verbatim>\<open>except KeyboardInterrupt\<close> and \<^verbatim>\<open>except Exception\<close> end it quietly, and
  \<^verbatim>\<open>finally\<close> clears the flag.
\<close>

datatype run_state = Still_running | Returned | Raised exc

definition run :: "config \<Rightarrow> sink \<Rightarrow> tick_env \<Rightarrow> tick_env list \<Rightarrow> monitor \<Rightarrow> run_state \<times> monitor" where
  "run cfg sink first ticks m =
     (case heartbeat_and_sweep cfg sink first (m\<lparr>running := True\<rparr>) of
        (Some e, m1) \<Rightarrow> (Raised e, m1)
      | (None, m1) \<Rightarrow>
          (case monitoring_loop cfg sink ticks m1 of
             (Looping, m2) \<Rightarrow> (Still_running, m2)
           | (Left None, m2) \<Rightarrow> (Returned, m2\<lparr>running := False\<rparr>)
           | (Left (Some e), m2) \<Rightarrow>
               if e = KeyboardInterrupt \<or> is_Exception e
               then (Returned, m2\<lparr>running := False\<rparr>)
               else (Raised e, m2\<lparr>running := False\<rparr>)))"

subsection \<open>Batches, to state what the sweep submits\<close>

text \<open>
  \<open>batch metrics j\<close> is the slice \<^verbatim>\<open>metrics[20*j : 20*j + 20]\<close>, \<open>n_batches metrics\<close>
  is \<open>ceil (N / 20)\<close> for \<open>N\<close> points, and \<open>calls ns metrics a b\<close> are the sink calls
  for the batches \<open>a\<close> to \<open>b - 1\<close>.
\<close>

definition batch :: "metric list \<Rightarrow> nat \<Rightarrow> metric list" where
  "batch metrics j = take 20 (drop (20 * j) metrics)"

definition n_batches :: "metric list \<Rightarrow> nat" where
  "n_batches metrics = (length metrics + 19) div 20"

definition calls :: "string \<Rightarrow> metric list \<Rightarrow> nat \<Rightarrow> nat \<Rightarrow> (string \<times> metric list) list" where
  "calls ns metrics a b = map (\<lambda>j. (ns, batch metrics j)) [a..<b]"

subsection \<open>What the theorems assume of the outside\<close>

text \<open>
  A probe is calm when each of its socket calls returns or raises an \<^verbatim>\<open>Exception\<close>; a
  sweep is calm when the probe of each configured target is.
\<close>

definition calm_probe :: "config \<Rightarrow> probe_env \<Rightarrow> string \<Rightarrow> bool" where
  "calm_probe cfg env target =
     (benign (socket_socket env) \<and> benign (sock_settimeout env) \<and>
      benign (sock_connect_ex env target (target_port cfg)) \<and> benign (sock_close env))"



text \<open>A probe fails when a socket call raises or \<^verbatim>\<open>connect_ex\<close> returns an error number.\<close>

definition probe_failed :: "config \<Rightarrow> probe_env \<Rightarrow> string \<Rightarrow> bool" where
  "probe_failed cfg env target =
     (isl (socket_socket env) \<or> isl (settimeout env (target_timeout cfg)) \<or>
      (case sock_connect_ex env target (target_port cfg) of
         Inl e \<Rightarrow> True
       | Inr result \<Rightarrow> result \<noteq> 0) \<or>
      isl (sock_close env))"


subsection \<open>Example inputs\<close>

text \<open>A configuration with the defaults and the given targets.\<close>

definition example_config :: "string list \<Rightarrow> config" where
  "example_config targets =
     \<lparr>aws_access_key_id = Some ''AKIA'', aws_secret_access_key = Some ''secret'',
      aws_region = ''us-east-1'', container_name = ''box'', heartbeat_interval = 300,
      cloudwatch_namespace = ''ContainerMonitoring/Heartbeat'', monitor_targets = targets,
      target_port = 80, target_timeout = 5, enable_health_endpoint = True,
      health_port = 8080\<rparr>"

text \<open>
  Four probes: a handshake after half a second, a refusal (error number 111) after a
  quarter of a second, a refusal during which the wall clock is set back by a second,
  and a host name that does not resolve.
\<close>

definition reachable :: probe_env where
  "reachable = \<lparr>time_start = 10, time_end = 10.5, socket_socket = Inr (),
     sock_settimeout = Inr (), sock_connect_ex = (\<lambda>host port. Inr 0), sock_close = Inr ()\<rparr>"

definition refused :: probe_env where
  "refused = \<lparr>time_start = 10, time_end = 10.25, socket_socket = Inr (),
     sock_settimeout = Inr (), sock_connect_ex = (\<lambda>host port. Inr 111), sock_close = Inr ()\<rparr>"

definition clock_set_back :: probe_env where
  "clock_set_back = \<lparr>time_start = 10, time_end = 9, socket_socket = Inr (),
     sock_settimeout = Inr (), sock_connect_ex = (\<lambda>host port. Inr 111), sock_close = Inr ()\<rparr>"

definition unresolvable :: probe_env where
  "unresolvable = \<lparr>time_start = 10, time_end = 10.25, socket_socket = Inr (),
     sock_settimeout = Inr (),
     sock_connect_ex = (\<lambda>host port. Inl (PyException ''socket.gaierror'')),
     sock_close = Inr ()\<rparr>"

definition noon :: datetime where
  "noon = \<lparr>dt_year = 2024, dt_month = 5, dt_day = 17, dt_hour = 12, dt_minute = 0,
           dt_second = 0, dt_microsecond = 0\<rparr>"

definition later :: datetime where
  "later = \<lparr>dt_year = 2024, dt_month = 5, dt_day = 17, dt_hour = 12, dt_minute = 5,
           dt_second = 0, dt_microsecond = 0\<rparr>"

text \<open>A sweep at the given time, each probe of which meets the same outcome.\<close>

definition every_probe :: "probe_env \<Rightarrow> datetime \<Rightarrow> sweep_env" where
  "every_probe outcome now = \<lparr>sweep_now = now, probe = (\<lambda>i. outcome)\<rparr>"


text \<open>The monitor as \<^verbatim>\<open>run\<close> has it at its first heartbeat.\<close>

definition fresh_monitor :: monitor where
  "fresh_monitor = \<lparr>running = True, start_time = 0, last_heartbeat = None,
     target_status = Map.empty, cloudwatch = []\<rparr>"

text \<open>Sinks: one that takes every call, and three that raise.\<close>

definition accepting :: sink where
  "accepting n = Inr ()"

definition rejecting_first :: sink where
  "rejecting_first n = (if n = 0 then Inl (PyException ''ClientError'') else Inr ())"

definition rejecting_second :: sink where
  "rejecting_second n = (if n = 1 then Inl (PyException ''ClientError'') else Inr ())"

definition rejecting_all :: sink where
  "rejecting_all n = Inl (PyException ''Throttling'')"

text \<open>Environments with a zero and a negative interval and timeout.\<close>

definition zero_interval_env :: environ where
  "zero_interval_env =
     [''AWS_ACCESS_KEY_ID'' \<mapsto> ''AKIA'', ''AWS_SECRET_ACCESS_KEY'' \<mapsto> ''secret'',
      ''HEARTBEAT_INTERVAL'' \<mapsto> ''0'', ''TARGET_TIMEOUT'' \<mapsto> ''-5'']"

definition negative_interval_env :: environ where
  "negative_interval_env =
     [''AWS_ACCESS_KEY_ID'' \<mapsto> ''AKIA'', ''AWS_SECRET_ACCESS_KEY'' \<mapsto> ''secret'',
      ''HEARTBEAT_INTERVAL'' \<mapsto> ''-60'', ''TARGET_TIMEOUT'' \<mapsto> ''0'']"


text \<open>Target lists; the last is what \<^verbatim>\<open>MONITOR_TARGETS=10.0.0.1,10.0.0.1\<close> gives.\<close>

definition two_targets :: "string list" where
  "two_targets = [''10.0.0.1'', ''10.0.0.2'']"

definition eleven_targets :: "string list" where
  "eleven_targets = [''10.0.0.1'', ''10.0.0.2'', ''10.0.0.3'', ''10.0.0.4'', ''10.0.0.5'',
     ''10.0.0.6'', ''10.0.0.7'', ''10.0.0.8'', ''10.0.0.9'', ''10.0.0.10'', ''10.0.0.11'']"

definition twenty_one_targets :: "string list" where
  "twenty_one_targets = [''h01'', ''h02'', ''h03'', ''h04'', ''h05'', ''h06'', ''h07'',
     ''h08'', ''h09'', ''h10'', ''h11'', ''h12'', ''h13'', ''h14'', ''h15'', ''h16'', ''h17'',
     ''h18'', ''h19'', ''h20'', ''h21'']"

definition repeated_targets :: "string list" where
  "repeated_targets = parse_targets ''10.0.0.1,10.0.0.1''"

text \<open>A monitor whose first heartbeat the sink has rejected.\<close>

definition after_rejected_heartbeat :: monitor where
  "after_rejected_heartbeat =
     snd (send_heartbeat (example_config eleven_targets) rejecting_first
            \<lparr>hb_now = noon, hb_time = 300\<rparr> fresh_monitor)"



definition reader :: heartbeat_env where
  "reader = \<lparr>hb_now = later, hb_time = 301\<rparr>"

section \<open>Properties\<close>

subsection \<open>The target list\<close>

lemma split_comma_not_Nil: "split_comma s \<noteq> []"
  by (induction s) (auto split: list.splits)

lemma split_comma_plain: "CHR '','' \<notin> set h \<Longrightarrow> split_comma h = [h]"
  by (induction h) auto

lemma split_comma_append:
  "CHR '','' \<notin> set h \<Longrightarrow> split_comma (h @ CHR '','' # s) = h # split_comma s"
  by (induction h) auto

lemma split_comma_join:
  "hs \<noteq> [] \<Longrightarrow> \<forall>h \<in> set hs. CHR '','' \<notin> set h \<Longrightarrow> split_comma (join_comma hs) = hs"
proof (induction hs rule: join_comma.induct)
  case 1
  then show ?case by simp
next
  case (2 h)
  then show ?case by (simp add: split_comma_plain)
next
  case (3 h g hs)
  then show ?case by (simp add: split_comma_append)
qed

lemma strip_plain: "plain_host h \<Longrightarrow> strip h = h"
proof -
  assume p: "plain_host h"
  then obtain c cs where h: "h = c # cs" by (cases h) (auto simp: plain_host_def)
  with p have l: "lstrip h = h" by (simp add: lstrip_def plain_host_def)
  from p have "rev h \<noteq> []" "\<not> is_space (hd (rev h))"
    by (auto simp: plain_host_def hd_rev)
  then have "dropWhile is_space (rev h) = rev h"
    by (cases "rev h") auto
  then have "rstrip h = h" by (simp add: rstrip_def)
  with l show ?thesis by (simp add: strip_def)
qed

lemma join_comma_Nil_iff: "plain_host h \<Longrightarrow> join_comma (h # hs) \<noteq> []"
  by (cases hs) (auto simp: plain_host_def)

lemma parse_targets_join_comma:
  "(\<forall>h \<in> set hs. plain_host h) \<longrightarrow>
     parse_targets (join_comma hs) = hs \<and>
     (\<forall>h. count_list (parse_targets (join_comma hs)) h = count_list hs h)"
proof
  assume p: "\<forall>h \<in> set hs. plain_host h"
  have "parse_targets (join_comma hs) = hs"
  proof (cases hs)
    case Nil
    then show ?thesis by (simp add: parse_targets_def)
  next
    case (Cons h hs')
    with p have ne: "join_comma hs \<noteq> []" using join_comma_Nil_iff by simp
    from p have nc: "\<forall>h \<in> set hs. CHR '','' \<notin> set h" by (simp add: plain_host_def)
    from Cons have "hs \<noteq> []" by simp
    then have s: "split_comma (join_comma hs) = hs" using nc by (rule split_comma_join)
    from p have f: "filter (\<lambda>target. strip target \<noteq> []) hs = hs"
      by (auto simp: filter_id_conv strip_plain plain_host_def)
    from p have m: "map strip hs = hs"
      by (simp add: map_idI strip_plain)
    show ?thesis using ne s f m by (simp add: parse_targets_def)
  qed
  then show "parse_targets (join_comma hs) = hs \<and>
     (\<forall>h. count_list (parse_targets (join_comma hs)) h = count_list hs h)"
    by simp
qed

lemma join_comma_Cons_char: "join_comma ((c # f) # fs) = c # join_comma (f # fs)"
  by (cases fs) simp_all

lemma join_split_comma: "join_comma (split_comma s) = s"
proof (induction s)
  case Nil
  show ?case by simp
next
  case (Cons c cs)
  obtain f fs where s: "split_comma cs = f # fs"
    using split_comma_not_Nil [of cs] by (cases "split_comma cs") auto
  show ?case
  proof (cases "c = CHR '',''")
    case True
    with s Cons show ?thesis by simp
  next
    case False
    with s Cons show ?thesis by (simp add: join_comma_Cons_char)
  qed
qed

lemma split_comma_no_comma: "f \<in> set (split_comma s) \<Longrightarrow> CHR '','' \<notin> set f"
proof (induction s arbitrary: f)
  case Nil
  then show ?case by simp
next
  case (Cons c cs)
  obtain g gs where s: "split_comma cs = g # gs"
    using split_comma_not_Nil [of cs] by (cases "split_comma cs") auto
  show ?case
  proof (cases "c = CHR '',''")
    case True
    with Cons show ?thesis by auto
  next
    case False
    with s Cons.prems have "f = c # g \<or> f \<in> set gs" by simp
    moreover have "CHR '','' \<notin> set g" using Cons.IH [of g] s by simp
    moreover have "f \<in> set gs \<Longrightarrow> CHR '','' \<notin> set f" using Cons.IH [of f] s by simp
    ultimately show ?thesis using False by auto
  qed
qed

lemma strip_Nil: "strip [] = []"
  by (simp add: strip_def lstrip_def rstrip_def)

lemma parse_targets_fields:
  "parse_targets s = map strip (filter (\<lambda>f. strip f \<noteq> []) (split_comma s))"
  by (simp add: parse_targets_def strip_Nil)

lemma count_stripped_fields:
  "count_list (map strip (filter (\<lambda>f. strip f \<noteq> []) fs)) h =
     (if h = [] then 0 else length (filter (\<lambda>f. strip f = h) fs))"
  by (induction fs) auto

lemma strip_shape:
  "\<exists>a b. f = a @ strip f @ b \<and> list_all is_space a \<and> list_all is_space b \<and>
     (strip f \<noteq> [] \<longrightarrow> \<not> is_space (hd (strip f)) \<and> \<not> is_space (last (strip f)))"
proof -
  define g where "g = dropWhile is_space f"
  define a where "a = takeWhile is_space f"
  define b where "b = rev (takeWhile is_space (rev g))"
  have s: "strip f = rev (dropWhile is_space (rev g))"
    by (simp add: strip_def lstrip_def rstrip_def g_def)
  have fa: "f = a @ g" by (simp add: a_def g_def)
  have "strip f @ b = rev (takeWhile is_space (rev g) @ dropWhile is_space (rev g))"
    unfolding s b_def by (simp only: rev_append)
  also have "\<dots> = rev (rev g)" by (simp only: takeWhile_dropWhile_id)
  finally have gb: "g = strip f @ b" by simp
  have la: "list_all is_space a" by (auto simp: a_def list_all_iff dest: set_takeWhileD)
  have lb: "list_all is_space b" by (auto simp: b_def list_all_iff dest: set_takeWhileD)
  have e: "\<not> is_space (hd (strip f)) \<and> \<not> is_space (last (strip f))" if ne: "strip f \<noteq> []"
  proof -
    from ne s have d: "dropWhile is_space (rev g) \<noteq> []" by simp
    then have "\<not> is_space (hd (dropWhile is_space (rev g)))" by (rule hd_dropWhile)
    moreover have "last (strip f) = hd (dropWhile is_space (rev g))"
      using d by (simp add: s last_rev)
    ultimately have l: "\<not> is_space (last (strip f))" by simp
    from ne gb have gne: "g \<noteq> []" by auto
    then have "\<not> is_space (hd g)" unfolding g_def by (rule hd_dropWhile)
    moreover from ne gb have "hd g = hd (strip f)" by (metis hd_append2)
    ultimately show ?thesis using l by simp
  qed
  from fa gb la lb e show ?thesis by auto
qed

text \<open>
  C5 (as amended). For every input string: its fields are the comma-free pieces that,
  joined by commas, give the string back; the parser returns, in order, the stripped
  fields that are not empty after stripping, so a host appears in the result as many
  times as there are fields that strip to it, and an empty entry never; stripping a
  field removes white space before and after it and nothing else, and leaves no white
  space at either end. In particular, for every list of hosts, each not empty, free of
  commas and without white space around it, parsing the comma-joined text returns that
  very list, in order, a host listed k times appearing k times.
\<close>

theorem parse_targets_keeps_duplicates:
  "join_comma (split_comma s) = s \<and>
   (\<forall>f \<in> set (split_comma s). CHR '','' \<notin> set f) \<and>
   parse_targets s = map strip (filter (\<lambda>f. strip f \<noteq> []) (split_comma s)) \<and>
   (\<forall>h. count_list (parse_targets s) h =
      (if h = [] then 0 else length (filter (\<lambda>f. strip f = h) (split_comma s)))) \<and>
   (\<forall>f. \<exists>a b. f = a @ strip f @ b \<and> list_all is_space a \<and> list_all is_space b \<and>
      (strip f \<noteq> [] \<longrightarrow> \<not> is_space (hd (strip f)) \<and> \<not> is_space (last (strip f)))) \<and>
   ((\<forall>h \<in> set hs. plain_host h) \<longrightarrow>
      parse_targets (join_comma hs) = hs \<and>
      (\<forall>h. count_list (parse_targets (join_comma hs)) h = count_list hs h))"
proof -
  have "\<forall>h. count_list (parse_targets s) h =
      (if h = [] then 0 else length (filter (\<lambda>f. strip f = h) (split_comma s)))"
    by (simp only: parse_targets_fields count_stripped_fields) simp
  with join_split_comma [of s] split_comma_no_comma [of _ s] parse_targets_fields [of s]
    strip_shape parse_targets_join_comma [of hs]
  show ?thesis by blast
qed

theorem parse_targets_keeps_duplicates_witness:
  "parse_targets ''10.0.0.1, 10.0.0.2 ,,10.0.0.1'' = [''10.0.0.1'', ''10.0.0.2'', ''10.0.0.1''] \<and>
   count_list (parse_targets ''10.0.0.1, 10.0.0.2 ,,10.0.0.1'') ''10.0.0.1'' = 2"
  using parse_targets_keeps_duplicates [of "''10.0.0.1, 10.0.0.2 ,,10.0.0.1''" "[]"]
  by (simp add: strip_def lstrip_def rstrip_def is_space_def)

theorem parse_targets_duplicates_counterexample:
  "\<not> distinct (parse_targets ''10.0.0.1,10.0.0.1'')"
  by (simp add: parse_targets_def strip_def lstrip_def rstrip_def is_space_def)

subsection \<open>The batch loop\<close>

lemma n_batches_le: "n_batches metrics \<le> a \<longleftrightarrow> length metrics \<le> 20 * a"
  unfolding n_batches_def by arith

lemma send_batches_step:
  "20 * a < length metrics \<Longrightarrow> sink (length (cloudwatch m)) = Inr () \<Longrightarrow>
   send_batches sink ns metrics (20 * a) m =
     send_batches sink ns metrics (20 * Suc a)
       (m\<lparr>cloudwatch := cloudwatch m @ [(ns, batch metrics a)]\<rparr>)"
  by (subst send_batches.simps) (simp add: put_metric_data_def batch_def add.commute)

lemma calls_Cons: "a < b \<Longrightarrow> calls ns metrics a b = (ns, batch metrics a) # calls ns metrics (Suc a) b"
  by (simp add: calls_def upt_conv_Cons)

lemma send_batches_all_ok:
  "\<forall>j < n_batches metrics - a. sink (length (cloudwatch m) + j) = Inr () \<Longrightarrow>
   send_batches sink ns metrics (20 * a) m =
     (None, m\<lparr>cloudwatch := cloudwatch m @ calls ns metrics a (n_batches metrics)\<rparr>)"
proof (induction "n_batches metrics - a" arbitrary: a m)
  case 0
  then have "length metrics \<le> 20 * a" using n_batches_le by simp
  moreover from 0 have "calls ns metrics a (n_batches metrics) = []" by (simp add: calls_def)
  ultimately show ?case by (simp add: send_batches.simps)
next
  case (Suc k)
  then have lt: "a < n_batches metrics" by simp
  then have i: "20 * a < length metrics" using n_batches_le [of metrics a] by simp
  from Suc.hyps(2) Suc.prems have s0: "sink (length (cloudwatch m)) = Inr ()"
    by (metis add.right_neutral zero_less_Suc)
  define m1 where "m1 = m\<lparr>cloudwatch := cloudwatch m @ [(ns, batch metrics a)]\<rparr>"
  have k: "k = n_batches metrics - Suc a" using Suc.hyps(2) by simp
  have "\<forall>j < n_batches metrics - Suc a. sink (length (cloudwatch m1) + j) = Inr ()"
  proof (intro allI impI)
    fix j assume "j < n_batches metrics - Suc a"
    then have "Suc j < n_batches metrics - a" by simp
    with Suc.prems have "sink (length (cloudwatch m) + Suc j) = Inr ()" by blast
    then show "sink (length (cloudwatch m1) + j) = Inr ()" by (simp add: m1_def)
  qed
  with Suc.hyps(1) [OF k] have rec: "send_batches sink ns metrics (20 * Suc a) m1 =
     (None, m1\<lparr>cloudwatch := cloudwatch m1 @ calls ns metrics (Suc a) (n_batches metrics)\<rparr>)"
    by simp
  have c: "calls ns metrics a (n_batches metrics) =
      (ns, batch metrics a) # calls ns metrics (Suc a) (n_batches metrics)"
    using lt by (rule calls_Cons)
  have "send_batches sink ns metrics (20 * a) m = send_batches sink ns metrics (20 * Suc a) m1"
    using i s0 unfolding m1_def by (rule send_batches_step)
  with rec c show ?case by (simp add: m1_def)
qed

lemma send_batches_raise:
  "\<forall>j < k. sink (length (cloudwatch m) + j) = Inr () \<Longrightarrow>
   sink (length (cloudwatch m) + k) = Inl e \<Longrightarrow> a + k < n_batches metrics \<Longrightarrow>
   send_batches sink ns metrics (20 * a) m =
     (Some e, m\<lparr>cloudwatch := cloudwatch m @ calls ns metrics a (Suc (a + k))\<rparr>)"
proof (induction k arbitrary: a m)
  case 0
  then have i: "20 * a < length metrics" using n_batches_le [of metrics a] by simp
  from 0 show ?case using i
    by (subst send_batches.simps) (simp add: put_metric_data_def batch_def calls_def)
next
  case (Suc k)
  then have i: "20 * a < length metrics" using n_batches_le [of metrics a] by simp
  from Suc.prems(1) have s0: "sink (length (cloudwatch m)) = Inr ()"
    by (metis add.right_neutral zero_less_Suc)
  define m1 where "m1 = m\<lparr>cloudwatch := cloudwatch m @ [(ns, batch metrics a)]\<rparr>"
  have p1: "\<forall>j < k. sink (length (cloudwatch m1) + j) = Inr ()"
  proof (intro allI impI)
    fix j assume "j < k"
    then have "Suc j < Suc k" by simp
    with Suc.prems(1) have "sink (length (cloudwatch m) + Suc j) = Inr ()" by blast
    then show "sink (length (cloudwatch m1) + j) = Inr ()" by (simp add: m1_def)
  qed
  have p2: "sink (length (cloudwatch m1) + k) = Inl e" using Suc.prems(2) by (simp add: m1_def)
  have p3: "Suc a + k < n_batches metrics" using Suc.prems(3) by simp
  from Suc.IH [OF p1 p2 p3] have rec: "send_batches sink ns metrics (20 * Suc a) m1 =
     (Some e, m1\<lparr>cloudwatch := cloudwatch m1 @ calls ns metrics (Suc a) (Suc (Suc a + k))\<rparr>)" .
  have c: "calls ns metrics a (Suc (a + Suc k)) =
      (ns, batch metrics a) # calls ns metrics (Suc a) (Suc (Suc a + k))"
    using calls_Cons [of a "Suc (a + Suc k)" ns metrics] by simp
  have "send_batches sink ns metrics (20 * a) m = send_batches sink ns metrics (20 * Suc a) m1"
    using i s0 unfolding m1_def by (rule send_batches_step)
  with rec c show ?case by (simp add: m1_def)
qed

lemma batch_length: "j < n_batches metrics \<Longrightarrow> 1 \<le> length (batch metrics j) \<and> length (batch metrics j) \<le> 20"
  using n_batches_le [of metrics j] by (simp add: batch_def)

lemma concat_batches_from:
  "concat (map (batch metrics) [a..<n_batches metrics]) = drop (20 * a) metrics"
proof (induction "n_batches metrics - a" arbitrary: a)
  case 0
  then have "length metrics \<le> 20 * a" using n_batches_le by simp
  with 0 show ?case by simp
next
  case (Suc k)
  then have lt: "a < n_batches metrics" by simp
  have k: "k = n_batches metrics - Suc a" using Suc.hyps(2) by simp
  from Suc.hyps(1) [OF k] have "concat (map (batch metrics) [Suc a..<n_batches metrics]) = drop (20 * Suc a) metrics" .
  moreover have "take 20 (drop (20 * a) metrics) @ drop (20 * Suc a) metrics = drop (20 * a) metrics"
    by (metis append_take_drop_id drop_drop mult_Suc_right)
  ultimately show ?case using lt by (simp add: upt_conv_Cons batch_def)
qed

subsection \<open>The probe and the sweep loops\<close>

lemma connect_attempt_benign:
  "calm_probe cfg env target \<Longrightarrow> benign (connect_attempt cfg env target)"
  by (auto simp: calm_probe_def connect_attempt_def settimeout_def split: sum.splits)

lemma check_calm:
  "calm_probe cfg env target \<Longrightarrow>
   check_target_connectivity cfg env target =
     Inr (connect_attempt cfg env target = Inr 0, (time_end env - time_start env) * 1000)"
proof -
  assume "calm_probe cfg env target"
  then have b: "benign (connect_attempt cfg env target)" by (rule connect_attempt_benign)
  show ?thesis
  proof (cases "connect_attempt cfg env target")
    case (Inl e)
    with b show ?thesis by (simp add: check_target_connectivity_def Let_def)
  next
    case (Inr result)
    then show ?thesis by (simp add: check_target_connectivity_def Let_def)
  qed
qed

lemma check_not_Exception:
  "check_target_connectivity cfg env target = Inl e \<Longrightarrow> \<not> is_Exception e"
  by (auto simp: check_target_connectivity_def Let_def split: sum.splits if_splits)

lemma probe_targets_frame:
  "probe_targets cfg env i ts (m, ms) = (r, m', ms') \<Longrightarrow>
   running m' = running m \<and> cloudwatch m' = cloudwatch m \<and>
   last_heartbeat m' = last_heartbeat m \<and> start_time m' = start_time m"
proof (induction ts arbitrary: i m ms)
  case Nil
  then show ?case by simp
next
  case (Cons t ts)
  show ?case
  proof (cases "check_target_connectivity cfg (probe env i) t")
    case (Inl e)
    with Cons.prems show ?thesis by simp
  next
    case (Inr p)
    obtain on rt where p: "p = (on, rt)" by (cases p)
    with Inr Cons.prems Cons.IH show ?thesis by fastforce
  qed
qed

lemma probe_targets_not_Exception:
  "probe_targets cfg env i ts (m, ms) = (Some e, m', ms') \<Longrightarrow> \<not> is_Exception e"
proof (induction ts arbitrary: i m ms)
  case Nil
  then show ?case by simp
next
  case (Cons t ts)
  show ?case
  proof (cases "check_target_connectivity cfg (probe env i) t")
    case (Inl e')
    with Cons.prems show ?thesis using check_not_Exception by fastforce
  next
    case (Inr p)
    obtain on rt where p: "p = (on, rt)" by (cases p)
    with Inr Cons.prems Cons.IH show ?thesis by fastforce
  qed
qed

lemma probe_targets_dom:
  "probe_targets cfg env i ts (m, ms) = (r, m', ms') \<Longrightarrow>
   dom (target_status m) \<subseteq> dom (target_status m') \<and>
   dom (target_status m') \<subseteq> dom (target_status m) \<union> set ts \<and>
   (r = None \<longrightarrow> dom (target_status m') = dom (target_status m) \<union> set ts)"
proof (induction ts arbitrary: i m ms)
  case Nil
  then show ?case by simp
next
  case (Cons t ts)
  show ?case
  proof (cases "check_target_connectivity cfg (probe env i) t")
    case (Inl e)
    with Cons.prems show ?thesis by auto
  next
    case (Inr p)
    obtain on rt where p: "p = (on, rt)" by (cases p)
    define m1 where "m1 = m\<lparr>target_status := (target_status m)(t \<mapsto>
        \<lparr>online = on, response_time = rt, last_check = isoformat (sweep_now env)\<rparr>)\<rparr>"
    from Inr p Cons.prems have "probe_targets cfg env (Suc i) ts
        (m1, ms @ target_metrics cfg (sweep_now env) t on rt) = (r, m', ms')"
      by (simp add: m1_def)
    from Cons.IH [OF this] have
      "dom (target_status m1) \<subseteq> dom (target_status m')"
      "dom (target_status m') \<subseteq> dom (target_status m1) \<union> set ts"
      "r = None \<longrightarrow> dom (target_status m') = dom (target_status m1) \<union> set ts"
      by simp_all
    moreover have "dom (target_status m1) = insert t (dom (target_status m))"
      by (simp add: m1_def)
    ultimately show ?thesis by auto
  qed
qed




lemma send_batches_frame:
  "send_batches sink ns metrics i m = (r, m') \<Longrightarrow>
   running m' = running m \<and> target_status m' = target_status m \<and>
   last_heartbeat m' = last_heartbeat m \<and> start_time m' = start_time m \<and>
   length (cloudwatch m) \<le> length (cloudwatch m')"
proof (induction sink ns metrics i m rule: send_batches.induct)
  case (1 sink ns metrics i m)
  show ?case
  proof (cases "i < length metrics")
    case False
    with "1.prems" show ?thesis by (simp add: send_batches.simps)
  next
    case True
    show ?thesis
    proof (cases "sink (length (cloudwatch m))")
      case (Inl e)
      with True "1.prems" show ?thesis
        by (auto simp: send_batches.simps [of sink ns metrics i m] put_metric_data_def)
    next
      case (Inr u)
      define m1 where "m1 = m\<lparr>cloudwatch := cloudwatch m @ [(ns, take 20 (drop i metrics))]\<rparr>"
      have p: "put_metric_data sink ns (take 20 (drop i metrics)) m = (None, m1)"
        using Inr by (simp add: put_metric_data_def m1_def)
      with True "1.prems" have "send_batches sink ns metrics (i + 20) m1 = (r, m')"
        by (simp add: send_batches.simps [of sink ns metrics i m])
      from "1.IH" [OF True p [symmetric] refl this] show ?thesis by (simp add: m1_def)
    qed
  qed
qed


subsection \<open>The probe\<close>

lemma probe_failed_iff:
  "probe_failed cfg env target \<longleftrightarrow> connect_attempt cfg env target \<noteq> Inr 0"
  by (auto simp: probe_failed_def connect_attempt_def split: sum.splits)

text \<open>
  C3 (as amended). For every target, port and timeout, when each socket call of the
  probe returns or raises an \<^verbatim>\<open>Exception\<close>, \<^verbatim>\<open>check_target_connectivity\<close> returns a
  result and never raises: the target is online exactly when no call raised and
  \<^verbatim>\<open>connect_ex\<close> returned 0, so every failure (a refusal or a timeout reported as an
  error number, a host that does not resolve, any other exception) gives
  \<open>online = False\<close>; the latency is the second reading of the wall clock minus the
  first, in milliseconds, and the latency returned is not negative exactly when the
  second reading is not below the first: it is negative when the clock was set back
  during the probe.
\<close>

theorem check_target_connectivity_never_raises:
  "calm_probe cfg env target \<longrightarrow>
     check_target_connectivity cfg env target =
       Inr (\<not> probe_failed cfg env target, (time_end env - time_start env) * 1000) \<and>
     (\<forall>is_online latency.
        check_target_connectivity cfg env target = Inr (is_online, latency) \<longrightarrow>
        (0 \<le> latency \<longleftrightarrow> time_start env \<le> time_end env))"
  by (auto simp: check_calm probe_failed_iff)

theorem check_target_connectivity_never_raises_witness:
  "check_target_connectivity (example_config [''nohost.invalid'']) unresolvable ''nohost.invalid''
     = Inr (False, 250)"
  using check_target_connectivity_never_raises
    [of "example_config [''nohost.invalid'']" unresolvable "''nohost.invalid''"]
  by (simp add: calm_probe_def probe_failed_def unresolvable_def example_config_def settimeout_def)

theorem negative_latency_counterexample:
  "calm_probe (example_config [''10.0.0.9'']) clock_set_back ''10.0.0.9'' \<and>
   check_target_connectivity (example_config [''10.0.0.9'']) clock_set_back ''10.0.0.9'' =
     Inr (False, - 1000)"
  by (simp add: calm_probe_def clock_set_back_def example_config_def
      check_target_connectivity_def connect_attempt_def settimeout_def)

subsection \<open>Configuration\<close>

lemma py_int_literals:
  "py_int ''0'' = Inr 0" "py_int ''-5'' = Inr (- 5)" "py_int ''-60'' = Inr (- 60)"
  "py_int ''80'' = Inr 80" "py_int ''8080'' = Inr 8080" "py_int ''300'' = Inr 300"
  "py_int ''5'' = Inr 5"
  by (simp_all add: py_int_def int_strip_def is_int_space_def is_digit_def
      digit_val_def)

lemma digit_char:
  "d < 10 \<Longrightarrow> is_digit (char_of (48 + d)) \<and> digit_val (char_of (48 + d)) = d"
  by (simp add: is_digit_def digit_val_def)

lemma is_digit_facts:
  "is_digit c \<Longrightarrow> \<not> is_int_space c \<and> c \<noteq> CHR ''-'' \<and> c \<noteq> CHR ''+''"
  by (auto simp: is_digit_def is_int_space_def)

lemma digits_value_all_digits:
  "list_all is_digit ds \<Longrightarrow>
   digits_value acc ds = Some (foldl (\<lambda>a c. 10 * a + digit_val c) acc ds)"
  by (induction acc ds rule: digits_value.induct) auto

lemma str_nat_digits:
  "list_all is_digit (str_nat n) \<and> str_nat n \<noteq> [] \<and>
   foldl (\<lambda>a c. 10 * a + digit_val c) 0 (str_nat n) = n"
proof (induction n rule: str_nat.induct)
  case (1 n)
  show ?case
  proof (cases "n < 10")
    case True
    then show ?thesis using digit_char [of n] by (simp add: str_nat.simps [of n])
  next
    case False
    have "n mod 10 < 10" by simp
    from digit_char [OF this] "1.IH" [OF False] False show ?thesis
      by (simp add: str_nat.simps [of n])
  qed
qed

lemma int_strip_no_space:
  "s \<noteq> [] \<Longrightarrow> \<not> is_int_space (hd s) \<Longrightarrow> \<not> is_int_space (last s) \<Longrightarrow> int_strip s = s"
proof -
  assume s: "s \<noteq> []" and h: "\<not> is_int_space (hd s)" and l: "\<not> is_int_space (last s)"
  from s h have a: "dropWhile is_int_space s = s" by (cases s) simp_all
  from s l have "rev s \<noteq> []" "\<not> is_int_space (hd (rev s))" by (simp_all add: hd_rev)
  then have "dropWhile is_int_space (rev s) = rev s" by (cases "rev s") auto
  with a show ?thesis by (simp add: int_strip_def)
qed

lemma py_int_digits:
  assumes "list_all is_digit ds" "ds \<noteq> []"
  shows "py_int ds = Inr (int (foldl (\<lambda>a c. 10 * a + digit_val c) 0 ds))"
    and "py_int (CHR ''-'' # ds) = Inr (- int (foldl (\<lambda>a c. 10 * a + digit_val c) 0 ds))"
proof -
  from assms obtain c cs where ds: "ds = c # cs" by (cases ds) auto
  with assms have c: "is_digit c" and cs: "list_all is_digit cs" by simp_all
  from assms have "is_digit (last ds)" by (simp add: list_all_iff)
  then have l: "\<not> is_int_space (last ds)" using is_digit_facts by blast
  from c have h: "\<not> is_int_space c" "c \<noteq> CHR ''-''" "c \<noteq> CHR ''+''"
    using is_digit_facts by blast+
  from ds h l have s1: "int_strip ds = ds" using int_strip_no_space [of ds] by simp
  have "\<not> is_int_space CHR ''-''" by (simp add: is_int_space_def)
  with ds l have s2: "int_strip (CHR ''-'' # ds) = CHR ''-'' # ds"
    using int_strip_no_space [of "CHR ''-'' # ds"] by simp
  have v: "digits_value (digit_val c) cs = Some (foldl (\<lambda>a c. 10 * a + digit_val c) 0 ds)"
    using digits_value_all_digits [OF cs, of "digit_val c"] ds by simp
  show "py_int ds = Inr (int (foldl (\<lambda>a c. 10 * a + digit_val c) 0 ds))"
    using s1 ds c h v by (simp add: py_int_def)
  show "py_int (CHR ''-'' # ds) = Inr (- int (foldl (\<lambda>a c. 10 * a + digit_val c) 0 ds))"
    using s2 ds c v by (simp add: py_int_def)
qed

lemma py_int_str_int: "py_int (str_int n) = Inr n"
proof (cases "n < 0")
  case True
  from str_nat_digits [of "nat (- n)"] py_int_digits(2) [of "str_nat (nat (- n))"] True
  show ?thesis by (simp add: str_int_def)
next
  case False
  from str_nat_digits [of "nat n"] py_int_digits(1) [of "str_nat (nat n)"] False
  show ?thesis by (simp add: str_int_def)
qed

text \<open>
  C6 (as amended). \<^verbatim>\<open>_load_config\<close> accepts an environment, with heartbeat interval
  \<open>h\<close> and target timeout \<open>t\<close>, exactly when \<^verbatim>\<open>HEARTBEAT_INTERVAL\<close> and
  \<^verbatim>\<open>TARGET_TIMEOUT\<close> (or their defaults) read as the integers \<open>h\<close> and \<open>t\<close>, the two
  ports read as integers, and both AWS keys are set and not empty. Nothing is asked of
  the sign of \<open>h\<close> and \<open>t\<close>: every integer, zero and the negative ones too, is what its
  decimal text reads as, and is accepted as it is.
\<close>

theorem load_config_accepts_every_integer:
  "((\<exists>cfg. load_config env hostname = Inr cfg \<and> heartbeat_interval cfg = h \<and>
           target_timeout cfg = t) \<longleftrightarrow>
    (py_int (getenv env ''HEARTBEAT_INTERVAL'' ''300'') = Inr h \<and>
     py_int (getenv env ''TARGET_TIMEOUT'' ''5'') = Inr t \<and>
     \<not> isl (py_int (getenv env ''TARGET_PORT'' ''80'')) \<and>
     \<not> isl (py_int (getenv env ''HEALTH_PORT'' ''8080'')) \<and>
     \<not> falsy (env ''AWS_ACCESS_KEY_ID'') \<and> \<not> falsy (env ''AWS_SECRET_ACCESS_KEY''))) \<and>
   py_int (str_int h) = Inr h \<and> py_int (str_int t) = Inr t"
proof -
  have "(\<exists>cfg. load_config env hostname = Inr cfg \<and> heartbeat_interval cfg = h \<and>
           target_timeout cfg = t) \<longleftrightarrow>
    (py_int (getenv env ''HEARTBEAT_INTERVAL'' ''300'') = Inr h \<and>
     py_int (getenv env ''TARGET_TIMEOUT'' ''5'') = Inr t \<and>
     \<not> isl (py_int (getenv env ''TARGET_PORT'' ''80'')) \<and>
     \<not> isl (py_int (getenv env ''HEALTH_PORT'' ''8080'')) \<and>
     \<not> falsy (env ''AWS_ACCESS_KEY_ID'') \<and> \<not> falsy (env ''AWS_SECRET_ACCESS_KEY''))"
    by (auto simp: load_config_def Let_def split: sum.splits)
  then show ?thesis by (simp add: py_int_str_int)
qed

theorem load_config_accepts_every_integer_witness:
  "\<exists>cfg. load_config negative_interval_env ''box'' = Inr cfg \<and>
     heartbeat_interval cfg = - 60 \<and> target_timeout cfg = 0"
  using load_config_accepts_every_integer [of negative_interval_env "''box''" "- 60" 0]
  by (simp add: negative_interval_env_def getenv_def py_int_literals)

theorem load_config_zero_interval_counterexample:
  "\<not> isl (init zero_interval_env ''box'' 0 (Inr ())) \<and>
   heartbeat_interval (fst (projr (init zero_interval_env ''box'' 0 (Inr ())))) = 0 \<and>
   target_timeout (fst (projr (init zero_interval_env ''box'' 0 (Inr ())))) = - 5"
  by (simp add: init_def load_config_def zero_interval_env_def getenv_def py_int_literals Let_def)

subsection \<open>The sweep as a whole\<close>

lemma except_Exception_snd: "snd (except_Exception x) = snd x"
  by (cases x rule: except_Exception.cases) simp_all


lemma send_target_metrics_probed:
  "monitor_targets cfg \<noteq> [] \<Longrightarrow>
   probe_targets cfg env 0 (monitor_targets cfg) (m, []) = (None, m1, metrics) \<Longrightarrow>
   send_target_metrics cfg sink env m =
     except_Exception (send_batches sink (cloudwatch_namespace cfg) metrics (20 * 0) m1)"
  by (simp add: send_target_metrics_def send_batches.simps [of _ _ "[]"])

lemma send_target_metrics_frame:
  "send_target_metrics cfg sink env m = (r, m') \<Longrightarrow>
   running m' = running m \<and> last_heartbeat m' = last_heartbeat m \<and>
   start_time m' = start_time m \<and> length (cloudwatch m) \<le> length (cloudwatch m')"
proof (cases "monitor_targets cfg = []")
  case True
  assume "send_target_metrics cfg sink env m = (r, m')"
  with True show ?thesis by (simp add: send_target_metrics_def)
next
  case False
  assume s: "send_target_metrics cfg sink env m = (r, m')"
  obtain r1 m1 ms where p: "probe_targets cfg env 0 (monitor_targets cfg) (m, []) = (r1, m1, ms)"
    by (metis prod_cases3)
  from probe_targets_frame [OF p] have f1: "running m1 = running m"
    "cloudwatch m1 = cloudwatch m" "last_heartbeat m1 = last_heartbeat m"
    "start_time m1 = start_time m" by simp_all
  show ?thesis
  proof (cases r1)
    case (Some e)
    with s p False have "m' = m1"
      using except_Exception_snd [of "(Some e, m1)"] by (simp add: send_target_metrics_def)
    with f1 show ?thesis by simp
  next
    case None
    obtain r2 m2 where b: "send_batches sink (cloudwatch_namespace cfg) ms (20 * 0) m1 = (r2, m2)"
      by (cases "send_batches sink (cloudwatch_namespace cfg) ms (20 * 0) m1")
    from None p False s have "m' = snd (except_Exception (r2, m2))"
      using send_target_metrics_probed [of cfg env m m1 ms sink] b by simp
    then have "m' = m2" by (simp add: except_Exception_snd)
    with send_batches_frame [OF b] f1 show ?thesis by simp
  qed
qed

lemma send_target_metrics_dom:
  assumes inv: "dom (target_status m) \<subseteq> set (monitor_targets cfg)"
    and s: "send_target_metrics cfg sink env m = (r, m')"
  shows "dom (target_status m') \<subseteq> set (monitor_targets cfg) \<and>
         (r = None \<longrightarrow> dom (target_status m') = set (monitor_targets cfg))"
proof (cases "monitor_targets cfg = []")
  case True
  with s inv show ?thesis by (auto simp: send_target_metrics_def)
next
  case False
  obtain r1 m1 ms where p: "probe_targets cfg env 0 (monitor_targets cfg) (m, []) = (r1, m1, ms)"
    by (metis prod_cases3)
  from probe_targets_dom [OF p] have
    "dom (target_status m1) \<subseteq> dom (target_status m) \<union> set (monitor_targets cfg)"
    "r1 = None \<longrightarrow> dom (target_status m1) = dom (target_status m) \<union> set (monitor_targets cfg)"
    by simp_all
  with inv have d1:
    "dom (target_status m1) \<subseteq> set (monitor_targets cfg)"
    "r1 = None \<longrightarrow> dom (target_status m1) = set (monitor_targets cfg)" by blast+
  show ?thesis
  proof (cases r1)
    case (Some e)
    from Some p have "\<not> is_Exception e" using probe_targets_not_Exception by blast
    with Some s p False have "m' = m1 \<and> r = Some e" by (simp add: send_target_metrics_def)
    with d1 show ?thesis by simp
  next
    case None
    obtain r2 m2 where b: "send_batches sink (cloudwatch_namespace cfg) ms (20 * 0) m1 = (r2, m2)"
      by (cases "send_batches sink (cloudwatch_namespace cfg) ms (20 * 0) m1")
    from None p False s have "m' = snd (except_Exception (r2, m2))"
      using send_target_metrics_probed [of cfg env m m1 ms sink] b by simp
    then have "m' = m2" by (simp add: except_Exception_snd)
    with send_batches_frame [OF b] have "target_status m' = target_status m1" by simp
    with d1 None show ?thesis by simp
  qed
qed



lemma send_target_metrics_keeps_keys:
  assumes s: "send_target_metrics cfg sink env m = (r, m')"
  shows "dom (target_status m) \<subseteq> dom (target_status m')"
proof (cases "monitor_targets cfg = []")
  case True
  with s show ?thesis by (simp add: send_target_metrics_def)
next
  case False
  obtain r1 m1 ms where p: "probe_targets cfg env 0 (monitor_targets cfg) (m, []) = (r1, m1, ms)"
    by (metis prod_cases3)
  from probe_targets_dom [OF p] have d1: "dom (target_status m) \<subseteq> dom (target_status m1)"
    by simp
  show ?thesis
  proof (cases r1)
    case (Some e)
    with s p False have "m' = m1"
      using except_Exception_snd [of "(Some e, m1)"] by (simp add: send_target_metrics_def)
    with d1 show ?thesis by simp
  next
    case None
    obtain r2 m2 where b: "send_batches sink (cloudwatch_namespace cfg) ms (20 * 0) m1 = (r2, m2)"
      by (cases "send_batches sink (cloudwatch_namespace cfg) ms (20 * 0) m1")
    from None p False s have "m' = snd (except_Exception (r2, m2))"
      using send_target_metrics_probed [of cfg env m m1 ms sink] b by simp
    then have "m' = m2" by (simp add: except_Exception_snd)
    with send_batches_frame [OF b] d1 show ?thesis by simp
  qed
qed

lemma triple_collapse: "fst x = None \<Longrightarrow> x = (None, fst (snd x), snd (snd x))"
  by (cases x) auto

lemmas sweep_eval = example_config_def every_probe_def reachable_def refused_def
  unresolvable_def fresh_monitor_def check_target_connectivity_def connect_attempt_def
  settimeout_def target_metrics_def

lemma twenty_one_probed:
  "fst (probe_targets (example_config twenty_one_targets) (every_probe reachable later) 0
         twenty_one_targets (fresh_monitor, [])) = None"
  "length (snd (snd (probe_targets (example_config twenty_one_targets) (every_probe reachable later) 0
         twenty_one_targets (fresh_monitor, [])))) = 42"
  "cloudwatch (fst (snd (probe_targets (example_config twenty_one_targets) (every_probe reachable later) 0
         twenty_one_targets (fresh_monitor, [])))) = []"
  by (simp_all add: sweep_eval twenty_one_targets_def)


lemma repeated_targets_eq: "repeated_targets = [''10.0.0.1'', ''10.0.0.1'']"
  by (simp add: repeated_targets_def parse_targets_def strip_def lstrip_def rstrip_def is_space_def)


subsection \<open>The heartbeat\<close>

lemma send_heartbeat_eq:
  "send_heartbeat cfg sink env m =
     (let m1 = m\<lparr>cloudwatch := cloudwatch m @
            [(cloudwatch_namespace cfg,
              heartbeat_metrics cfg (hb_now env) (hb_time env - start_time m))]\<rparr>
      in case sink (length (cloudwatch m)) of
           Inl e \<Rightarrow> (if is_Exception e then None else Some e, m1)
         | Inr u \<Rightarrow> (None, m1\<lparr>last_heartbeat := Some (hb_now env)\<rparr>))"
  by (simp add: send_heartbeat_def put_metric_data_def Let_def split: sum.splits)

text \<open>
  C10. Let \<open>m'\<close> be the monitor after one \<^verbatim>\<open>send_heartbeat\<close>. When the sink call of
  the heartbeat raises, \<open>last_heartbeat\<close> keeps the value it had before the attempt, and
  so do the running flag, the start time and the target status; when the call returns,
  \<open>last_heartbeat\<close> is the time of this heartbeat. A sweep never changes
  \<open>last_heartbeat\<close>.
\<close>

theorem send_heartbeat_keeps_last_heartbeat_on_error:
  "m' = snd (send_heartbeat cfg sink env m) \<longrightarrow>
     (\<forall>e. sink (length (cloudwatch m)) = Inl e \<longrightarrow>
        last_heartbeat m' = last_heartbeat m \<and> running m' = running m \<and>
        start_time m' = start_time m \<and> target_status m' = target_status m) \<and>
     (sink (length (cloudwatch m)) = Inr () \<longrightarrow> last_heartbeat m' = Some (hb_now env)) \<and>
     last_heartbeat (snd (send_target_metrics cfg sink sweep m)) = last_heartbeat m"
proof -
  have "last_heartbeat (snd (send_target_metrics cfg sink sweep m)) = last_heartbeat m"
    using send_target_metrics_frame [of cfg sink sweep m] by (metis prod.collapse)
  then show ?thesis by (simp add: send_heartbeat_eq Let_def)
qed

theorem send_heartbeat_keeps_last_heartbeat_on_error_witness:
  "last_heartbeat (snd (send_heartbeat (example_config []) rejecting_first
      \<lparr>hb_now = later, hb_time = 300\<rparr> (fresh_monitor\<lparr>last_heartbeat := Some noon\<rparr>))) = Some noon"
  using send_heartbeat_keeps_last_heartbeat_on_error
    [of "snd (send_heartbeat (example_config []) rejecting_first
      \<lparr>hb_now = later, hb_time = 300\<rparr> (fresh_monitor\<lparr>last_heartbeat := Some noon\<rparr>))"
      "example_config []" rejecting_first "\<lparr>hb_now = later, hb_time = 300\<rparr>"
      "fresh_monitor\<lparr>last_heartbeat := Some noon\<rparr>"]
  by (simp add: rejecting_first_def fresh_monitor_def)

subsection \<open>The health view\<close>

text \<open>
  C9. For every request to the health view, whatever the state of the monitor: the
  status is \<open>healthy\<close> exactly when the running flag is set and \<open>unhealthy\<close> exactly
  when it is not; the target status is null exactly when no target is configured; and a
  sweep, whatever its probes and its sink calls do, leaves the status as it was.
\<close>

theorem health_status_follows_running_flag:
  "(health_status (health cfg env m) = ''healthy'' \<longleftrightarrow> running m) \<and>
   (health_status (health cfg env m) = ''unhealthy'' \<longleftrightarrow> \<not> running m) \<and>
   (health_target_status (health cfg env m) = None \<longleftrightarrow> monitor_targets cfg = []) \<and>
   health_status (health cfg env (snd (send_target_metrics cfg sink sweep m))) =
     health_status (health cfg env m)"
proof -
  have "running (snd (send_target_metrics cfg sink sweep m)) = running m"
    using send_target_metrics_frame [of cfg sink sweep m] by (metis prod.collapse)
  then show ?thesis by (simp add: health_def Let_def)
qed

theorem health_status_follows_running_flag_witness:
  "health_status (health (example_config two_targets) reader
     (snd (send_target_metrics (example_config two_targets) rejecting_all
        (every_probe refused later) fresh_monitor))) = ''healthy''"
  using health_status_follows_running_flag
    [of "example_config two_targets" reader fresh_monitor rejecting_all
        "every_probe refused later"]
  by (simp add: fresh_monitor_def)

subsection \<open>Batches of a sweep\<close>

lemma n_batches_ceiling: "int (n_batches metrics) = \<lceil>real (length metrics) / 20\<rceil>"
proof -
  have "real (length metrics) / 20 = real_of_int (int (length metrics)) / real_of_int 20"
    by simp
  then have "\<lceil>real (length metrics) / 20\<rceil> = - (- int (length metrics) div 20)"
    using ceiling_divide_eq_div [of "int (length metrics)" 20] by simp
  also have "\<dots> = int ((length metrics + 19) div 20)" by (simp add: zdiv_int) 
  finally show ?thesis by (simp add: n_batches_def)
qed

lemma send_batches_prefix:
  "\<exists>k \<le> n_batches metrics. cloudwatch (snd (send_batches sink ns metrics (20 * 0) m)) =
      cloudwatch m @ calls ns metrics 0 k"
proof (cases "\<forall>j < n_batches metrics. sink (length (cloudwatch m) + j) = Inr ()")
  case True
  then have "\<forall>j < n_batches metrics - 0. sink (length (cloudwatch m) + j) = Inr ()" by simp
  from send_batches_all_ok [OF this] show ?thesis by auto
next
  case False
  define P where "P = (\<lambda>j. j < n_batches metrics \<and> sink (length (cloudwatch m) + j) \<noteq> Inr ())"
  from False have ex: "\<exists>j. P j" by (auto simp: P_def)
  define k where "k = (LEAST j. P j)"
  from ex have Pk: "P k" unfolding k_def by (metis LeastI)
  have least: "\<forall>j < k. \<not> P j" unfolding k_def using not_less_Least by blast
  from Pk have kn: "k < n_batches metrics" by (simp add: P_def)
  from Pk obtain e where e: "sink (length (cloudwatch m) + k) = Inl e"
    by (cases "sink (length (cloudwatch m) + k)") (auto simp: P_def)
  have ok: "\<forall>j < k. sink (length (cloudwatch m) + j) = Inr ()"
    using least kn by (auto simp: P_def)
  from kn have "0 + k < n_batches metrics" by simp
  from send_batches_raise [OF ok e this] kn show ?thesis
    by (intro exI [of _ "Suc k"]) simp
qed

text \<open>
  C2 (as amended). Let a sweep have probed its targets and produced \<open>N\<close> metric points,
  batch \<open>j\<close> being the points \<open>20 j\<close> to \<open>20 j + 19\<close>: there are \<open>ceil (N / 20)\<close>
  batches, of between 1 and 20 points each, all the points together, in order. When
  none of the sink calls of this sweep raises, whatever earlier and later calls do, the
  sweep makes exactly these \<open>ceil (N / 20)\<close> calls, one per batch, and returns normally.
  When the calls for the batches before batch \<open>k\<close> return and the call for batch \<open>k\<close>
  raises, the sweep makes exactly the calls for the batches 0 to \<open>k\<close> and stops. So in
  every case the calls made are the first batches in order, at most \<open>ceil (N / 20)\<close> of
  them, and none carries more than 20 points.
\<close>

theorem sweep_submits_batches_of_twenty:
  assumes "monitor_targets cfg \<noteq> []"
    and "probe_targets cfg env 0 (monitor_targets cfg) (m, []) = (None, m1, metrics)"
  shows "((\<forall>j < n_batches metrics. sink (length (cloudwatch m) + j) = Inr ()) \<longrightarrow>
            send_target_metrics cfg sink env m =
              (None, m1\<lparr>cloudwatch := cloudwatch m @
                 calls (cloudwatch_namespace cfg) metrics 0 (n_batches metrics)\<rparr>)) \<and>
         (\<forall>k e. k < n_batches metrics \<and>
                 (\<forall>j < k. sink (length (cloudwatch m) + j) = Inr ()) \<and>
                 sink (length (cloudwatch m) + k) = Inl e \<longrightarrow>
            cloudwatch (snd (send_target_metrics cfg sink env m)) =
              cloudwatch m @ calls (cloudwatch_namespace cfg) metrics 0 (Suc k)) \<and>
         (\<exists>k \<le> n_batches metrics. cloudwatch (snd (send_target_metrics cfg sink env m)) =
            cloudwatch m @ calls (cloudwatch_namespace cfg) metrics 0 k) \<and>
         length (calls (cloudwatch_namespace cfg) metrics 0 (n_batches metrics)) =
           n_batches metrics \<and>
         int (n_batches metrics) = \<lceil>real (length metrics) / 20\<rceil> \<and>
         (\<forall>j < n_batches metrics. 1 \<le> length (batch metrics j) \<and> length (batch metrics j) \<le> 20) \<and>
         concat (map (batch metrics) [0..<n_batches metrics]) = metrics"
proof -
  from probe_targets_frame [OF assms(2)] have cw: "cloudwatch m1 = cloudwatch m" by simp
  have s: "send_target_metrics cfg sink env m =
      except_Exception (send_batches sink (cloudwatch_namespace cfg) metrics (20 * 0) m1)"
    using assms by (rule send_target_metrics_probed)
  have a: "(\<forall>j < n_batches metrics. sink (length (cloudwatch m) + j) = Inr ()) \<longrightarrow>
            send_target_metrics cfg sink env m =
              (None, m1\<lparr>cloudwatch := cloudwatch m @
                 calls (cloudwatch_namespace cfg) metrics 0 (n_batches metrics)\<rparr>)"
  proof
    assume "\<forall>j < n_batches metrics. sink (length (cloudwatch m) + j) = Inr ()"
    with cw have "\<forall>j < n_batches metrics - 0. sink (length (cloudwatch m1) + j) = Inr ()"
      by simp
    from send_batches_all_ok [OF this] s cw show "send_target_metrics cfg sink env m =
              (None, m1\<lparr>cloudwatch := cloudwatch m @
                 calls (cloudwatch_namespace cfg) metrics 0 (n_batches metrics)\<rparr>)" by simp
  qed
  have r: "cloudwatch (snd (send_target_metrics cfg sink env m)) =
              cloudwatch m @ calls (cloudwatch_namespace cfg) metrics 0 (Suc k)"
    if k: "k < n_batches metrics" and ok: "\<forall>j < k. sink (length (cloudwatch m) + j) = Inr ()"
      and bad: "sink (length (cloudwatch m) + k) = Inl e" for k e
  proof -
    from ok bad cw have ok1: "\<forall>j < k. sink (length (cloudwatch m1) + j) = Inr ()"
      and bad1: "sink (length (cloudwatch m1) + k) = Inl e" by simp_all
    from k have "0 + k < n_batches metrics" by simp
    from send_batches_raise [OF ok1 bad1 this] s cw show ?thesis
      by (simp add: except_Exception_snd)
  qed
  have b: "\<exists>k \<le> n_batches metrics. cloudwatch (snd (send_target_metrics cfg sink env m)) =
            cloudwatch m @ calls (cloudwatch_namespace cfg) metrics 0 k"
    using send_batches_prefix [of metrics sink "cloudwatch_namespace cfg" m1] s cw
    by (simp add: except_Exception_snd)
  have c: "length (calls (cloudwatch_namespace cfg) metrics 0 (n_batches metrics)) =
           n_batches metrics" by (simp add: calls_def)
  have d: "\<forall>j < n_batches metrics. 1 \<le> length (batch metrics j) \<and> length (batch metrics j) \<le> 20"
    using batch_length by blast
  have e: "concat (map (batch metrics) [0..<n_batches metrics]) = metrics"
    using concat_batches_from [of metrics 0] by simp
  from a r b c d e n_batches_ceiling show ?thesis by blast
qed

theorem sweep_submits_batches_of_twenty_witness:
  "fst (send_target_metrics (example_config eleven_targets) rejecting_first
          (every_probe reachable later) after_rejected_heartbeat) = None \<and>
   map (length \<circ> snd) (cloudwatch (snd (send_target_metrics (example_config eleven_targets)
          rejecting_first (every_probe reachable later) after_rejected_heartbeat))) = [2, 20, 2]"
proof -
  let ?cfg = "example_config eleven_targets"
  let ?env = "every_probe reachable later"
  let ?m = "after_rejected_heartbeat"
  let ?P = "probe_targets ?cfg ?env 0 eleven_targets (?m, [])"
  have mt: "monitor_targets ?cfg = eleven_targets" by (simp add: example_config_def)
  have ne: "monitor_targets ?cfg \<noteq> []" by (simp add: example_config_def eleven_targets_def)
  have f: "fst ?P = None" and len: "length (snd (snd ?P)) = 22"
    by (simp_all add: sweep_eval eleven_targets_def)
  have p: "probe_targets ?cfg ?env 0 (monitor_targets ?cfg) (?m, []) =
       (None, fst (snd ?P), snd (snd ?P))"
    unfolding mt using f by (rule triple_collapse)
  have nb: "n_batches (snd (snd ?P)) = 2" by (simp add: n_batches_def len)
  have u: "[0..<2] = [0, 1]" by (simp add: upt_conv_Cons)
  have cw: "map (length \<circ> snd) (cloudwatch ?m) = [2]"
    by (simp add: after_rejected_heartbeat_def send_heartbeat_eq rejecting_first_def
        fresh_monitor_def heartbeat_metrics_def)
  then have l: "length (cloudwatch ?m) = 1" by (metis length_map list.size(3,4) One_nat_def add_0)
  have ok: "\<forall>j < n_batches (snd (snd ?P)). rejecting_first (length (cloudwatch ?m) + j) = Inr ()"
    by (simp add: l rejecting_first_def)
  from sweep_submits_batches_of_twenty [OF ne p, of rejecting_first] ok
  have eq: "send_target_metrics ?cfg rejecting_first ?env ?m =
      (None, (fst (snd ?P))\<lparr>cloudwatch := cloudwatch ?m @
         calls (cloudwatch_namespace ?cfg) (snd (snd ?P)) 0 (n_batches (snd (snd ?P)))\<rparr>)"
    by blast
  show ?thesis by (simp add: eq cw u nb calls_def batch_def len)
qed

theorem sweep_fewer_calls_counterexample:
  "length (snd (snd (probe_targets (example_config eleven_targets) (every_probe reachable later) 0
      eleven_targets (fresh_monitor, [])))) = 22 \<and> \<lceil>22 / 20 :: real\<rceil> = 2 \<and>
   length (cloudwatch (snd (send_target_metrics (example_config eleven_targets)
      rejecting_all (every_probe reachable later) fresh_monitor))) = 1"
  by (simp add: sweep_eval eleven_targets_def rejecting_all_def send_target_metrics_def
      send_batches.simps put_metric_data_def)

text \<open>
  C1 (as amended). Let a sweep have probed its targets and produced its metric points.
  When the sink calls for the batches before batch \<open>k\<close> return and the call for batch
  \<open>k\<close> raises, the sweep has submitted the batches 0 to \<open>k\<close> and nothing else: no
  later batch of this sweep is attempted. The sweep itself returns normally when what
  was raised is an \<^verbatim>\<open>Exception\<close>, so the next round of the loop is not held up.
\<close>

theorem sink_failure_ends_the_batches:
  assumes "monitor_targets cfg \<noteq> []"
    and "probe_targets cfg env 0 (monitor_targets cfg) (m, []) = (None, m1, metrics)"
    and "\<forall>j < k. sink (length (cloudwatch m) + j) = Inr ()"
    and "sink (length (cloudwatch m) + k) = Inl e"
    and "k < n_batches metrics"
  shows "send_target_metrics cfg sink env m =
           (if is_Exception e then None else Some e,
            m1\<lparr>cloudwatch := cloudwatch m @
               calls (cloudwatch_namespace cfg) metrics 0 (Suc k)\<rparr>)"
proof -
  from probe_targets_frame [OF assms(2)] have cw: "cloudwatch m1 = cloudwatch m" by simp
  have s: "send_target_metrics cfg sink env m =
      except_Exception (send_batches sink (cloudwatch_namespace cfg) metrics (20 * 0) m1)"
    using assms(1,2) by (rule send_target_metrics_probed)
  from assms(3,4) cw have ok: "\<forall>j < k. sink (length (cloudwatch m1) + j) = Inr ()"
    and bad: "sink (length (cloudwatch m1) + k) = Inl e" by simp_all
  from assms(5) have "0 + k < n_batches metrics" by simp
  from send_batches_raise [OF ok bad this] s cw show ?thesis by simp
qed

theorem sink_failure_ends_the_batches_witness:
  "fst (send_target_metrics (example_config twenty_one_targets) rejecting_second
          (every_probe reachable later) fresh_monitor) = None \<and>
   map (length \<circ> snd) (cloudwatch (snd (send_target_metrics (example_config twenty_one_targets)
          rejecting_second (every_probe reachable later) fresh_monitor))) = [20, 20]"
proof -
  let ?cfg = "example_config twenty_one_targets"
  let ?env = "every_probe reachable later"
  let ?P = "probe_targets ?cfg ?env 0 twenty_one_targets (fresh_monitor, [])"
  have mt: "monitor_targets ?cfg = twenty_one_targets" by (simp add: example_config_def)
  have ne: "monitor_targets ?cfg \<noteq> []" by (simp add: example_config_def twenty_one_targets_def)
  have p: "probe_targets ?cfg ?env 0 (monitor_targets ?cfg) (fresh_monitor, []) =
       (None, fst (snd ?P), snd (snd ?P))"
    unfolding mt using twenty_one_probed(1) by (rule triple_collapse)
  have ok: "\<forall>j < 1. rejecting_second (length (cloudwatch fresh_monitor) + j) = Inr ()"
    by (simp add: rejecting_second_def fresh_monitor_def)
  have bad: "rejecting_second (length (cloudwatch fresh_monitor) + 1) = Inl (PyException ''ClientError'')"
    by (simp add: rejecting_second_def fresh_monitor_def)
  have nb: "1 < n_batches (snd (snd ?P))" by (simp add: n_batches_def twenty_one_probed(2))
  have cw: "cloudwatch fresh_monitor = []" by (simp add: fresh_monitor_def)
  have u: "[0..<2] = [0, 1]" by (simp add: upt_conv_Cons)
  note eq = sink_failure_ends_the_batches [OF ne p ok bad nb]
  show ?thesis by (simp add: eq cw u calls_def batch_def twenty_one_probed(2))
qed

theorem sink_failure_skips_later_batches_counterexample:
  "length (snd (snd (probe_targets (example_config eleven_targets) (every_probe reachable later) 0
      eleven_targets (fresh_monitor, [])))) = 22 \<and>
   rejecting_first 0 = Inl (PyException ''ClientError'') \<and> rejecting_first 1 = Inr () \<and>
   map (length \<circ> snd) (cloudwatch (snd (send_target_metrics (example_config eleven_targets)
      rejecting_first (every_probe reachable later) fresh_monitor))) = [20]"
  by (simp add: sweep_eval eleven_targets_def rejecting_first_def send_target_metrics_def
      send_batches.simps put_metric_data_def)

subsection \<open>The main loop\<close>

lemma send_heartbeat_frame:
  "send_heartbeat cfg sink env m = (r, m') \<Longrightarrow>
   running m' = running m \<and> target_status m' = target_status m \<and>
   length (cloudwatch m') = Suc (length (cloudwatch m)) \<and>
   (benign (sink (length (cloudwatch m))) \<longrightarrow> r = None)"
  by (cases "sink (length (cloudwatch m))") (auto simp: send_heartbeat_eq Let_def)









subsection \<open>The shared target status\<close>




lemma heartbeat_and_sweep_dom:
  assumes inv: "dom (target_status m) \<subseteq> set (monitor_targets cfg)"
    and h: "heartbeat_and_sweep cfg sink t m = (r, m')"
  shows "dom (target_status m) \<subseteq> dom (target_status m') \<and>
         dom (target_status m') \<subseteq> set (monitor_targets cfg) \<and>
         (r = None \<longrightarrow> dom (target_status m') = set (monitor_targets cfg))"
proof -
  obtain r1 m1 where hb: "send_heartbeat cfg sink (tick_heartbeat t) m = (r1, m1)"
    by (cases "send_heartbeat cfg sink (tick_heartbeat t) m")
  from send_heartbeat_frame [OF hb] have f1: "target_status m1 = target_status m" by simp
  show ?thesis
  proof (cases "r1 = None \<and> monitor_targets cfg \<noteq> []")
    case False
    with h hb have "m' = m1 \<and> (r = None \<longrightarrow> monitor_targets cfg = [])"
      by (auto simp: heartbeat_and_sweep_def split: option.splits)
    with f1 inv show ?thesis by auto
  next
    case True
    with h hb have s: "send_target_metrics cfg sink (tick_sweep t) m1 = (r, m')"
      by (simp add: heartbeat_and_sweep_def)
    from inv f1 have "dom (target_status m1) \<subseteq> set (monitor_targets cfg)" by simp
    from send_target_metrics_dom [OF this s] send_target_metrics_keeps_keys [OF s] f1
    show ?thesis by simp
  qed
qed

lemma monitoring_loop_dom:
  "dom (target_status m) = set (monitor_targets cfg) \<Longrightarrow>
   monitoring_loop cfg sink ticks m = (r, m') \<Longrightarrow>
   dom (target_status m') = set (monitor_targets cfg)"
proof (induction ticks arbitrary: m)
  case Nil
  then show ?case by (auto split: if_splits)
next
  case (Cons t ticks)
  show ?case
  proof (cases "running m \<and> sleep (heartbeat_interval cfg) t = None \<and> \<not> stop_called t")
    case False
    with Cons.prems(2) have "target_status m' = target_status m"
      by (auto split: if_splits option.splits)
    with Cons.prems(1) show ?thesis by simp
  next
    case True
    obtain r1 m1 where h: "heartbeat_and_sweep cfg sink t m = (r1, m1)"
      by (cases "heartbeat_and_sweep cfg sink t m")
    from Cons.prems(1) have "dom (target_status m) \<subseteq> set (monitor_targets cfg)" by simp
    from heartbeat_and_sweep_dom [OF this h] Cons.prems(1)
    have d1: "dom (target_status m1) = set (monitor_targets cfg)" by auto
    show ?thesis
    proof (cases r1)
      case (Some e)
      with True h Cons.prems(2) have "m' = m1" by simp
      with d1 show ?thesis by simp
    next
      case None
      with True h Cons.prems(2) have "monitoring_loop cfg sink ticks m1 = (r, m')" by simp
      from Cons.IH [OF d1 this] show ?thesis .
    qed
  qed
qed

lemma run_dom:
  assumes inv: "dom (target_status m) \<subseteq> set (monitor_targets cfg)"
    and r: "run cfg sink first ticks m = (r, m')"
  shows "dom (target_status m') \<subseteq> set (monitor_targets cfg) \<and>
         (r = Still_running \<or> r = Returned \<longrightarrow>
            dom (target_status m') = set (monitor_targets cfg))"
proof -
  obtain r1 m1 where h: "heartbeat_and_sweep cfg sink first (m\<lparr>running := True\<rparr>) = (r1, m1)"
    by (cases "heartbeat_and_sweep cfg sink first (m\<lparr>running := True\<rparr>)")
  from inv have "dom (target_status (m\<lparr>running := True\<rparr>)) \<subseteq> set (monitor_targets cfg)"
    by simp
  from heartbeat_and_sweep_dom [OF this h] have d1:
    "dom (target_status m1) \<subseteq> set (monitor_targets cfg)"
    "r1 = None \<longrightarrow> dom (target_status m1) = set (monitor_targets cfg)" by simp_all
  show ?thesis
  proof (cases r1)
    case (Some e)
    with h r have "m' = m1 \<and> r = Raised e" by (auto simp: run_def)
    with d1 show ?thesis by simp
  next
    case None
    obtain l m2 where ml: "monitoring_loop cfg sink ticks m1 = (l, m2)"
      by (cases "monitoring_loop cfg sink ticks m1")
    from None d1 have "dom (target_status m1) = set (monitor_targets cfg)" by simp
    from monitoring_loop_dom [OF this ml]
    have d2: "dom (target_status m2) = set (monitor_targets cfg)" .
    from None h r ml have "target_status m' = target_status m2"
      by (auto simp: run_def split: loop_state.splits option.splits if_splits)
    with d2 show ?thesis by simp
  qed
qed

text \<open>
  C7 (as amended). Let the target status hold no key outside the configured targets, as
  it does after construction. Then it never does: not between two probes of a sweep, not
  after a sweep, not at the end of any run. After a sweep that returned, the keys are
  exactly the set of the configured targets, so their number is the number of distinct
  configured targets, which is the length of the configured list when no host is
  repeated in it; and the same keys are there whenever \<^verbatim>\<open>run\<close> is still looping or has
  returned.
\<close>

theorem target_status_keys_are_the_targets:
  assumes "dom (target_status m) \<subseteq> set (monitor_targets cfg)"
  shows "(\<forall>k rk mk msk.
            probe_targets cfg env 0 (take k (monitor_targets cfg)) (m, []) = (rk, mk, msk) \<longrightarrow>
            dom (target_status mk) \<subseteq> set (monitor_targets cfg)) \<and>
         (\<forall>r m'. send_target_metrics cfg sink env m = (r, m') \<longrightarrow>
            dom (target_status m') \<subseteq> set (monitor_targets cfg) \<and>
            (r = None \<longrightarrow>
               dom (target_status m') = set (monitor_targets cfg) \<and>
               card (dom (target_status m')) = length (remdups (monitor_targets cfg)) \<and>
               (distinct (monitor_targets cfg) \<longrightarrow>
                  card (dom (target_status m')) = length (monitor_targets cfg)))) \<and>
         (\<forall>r m'. run cfg sink first ticks m = (r, m') \<longrightarrow>
            dom (target_status m') \<subseteq> set (monitor_targets cfg) \<and>
            (r = Still_running \<or> r = Returned \<longrightarrow>
               dom (target_status m') = set (monitor_targets cfg)))"
proof -
  have a: "dom (target_status mk) \<subseteq> set (monitor_targets cfg)"
    if "probe_targets cfg env 0 (take k (monitor_targets cfg)) (m, []) = (rk, mk, msk)"
    for k rk mk msk
  proof -
    from probe_targets_dom [OF that]
    have "dom (target_status mk) \<subseteq> dom (target_status m) \<union> set (take k (monitor_targets cfg))"
      by simp
    moreover have "set (take k (monitor_targets cfg)) \<subseteq> set (monitor_targets cfg)"
      by (rule set_take_subset)
    ultimately show ?thesis using assms by blast
  qed
  have b: "dom (target_status m') \<subseteq> set (monitor_targets cfg) \<and>
            (r = None \<longrightarrow>
               dom (target_status m') = set (monitor_targets cfg) \<and>
               card (dom (target_status m')) = length (remdups (monitor_targets cfg)) \<and>
               (distinct (monitor_targets cfg) \<longrightarrow>
                  card (dom (target_status m')) = length (monitor_targets cfg)))"
    if "send_target_metrics cfg sink env m = (r, m')" for r m'
    using send_target_metrics_dom [OF assms that]
    by (auto simp: length_remdups_card_conv distinct_card)
  have c: "dom (target_status m') \<subseteq> set (monitor_targets cfg) \<and>
            (r = Still_running \<or> r = Returned \<longrightarrow>
               dom (target_status m') = set (monitor_targets cfg))"
    if "run cfg sink first ticks m = (r, m')" for r m'
    using run_dom [OF assms that] .
  from a b c show ?thesis by blast
qed

theorem target_status_keys_are_the_targets_witness:
  "dom (target_status (snd (send_target_metrics (example_config two_targets) accepting
      (every_probe refused later) fresh_monitor))) = {''10.0.0.1'', ''10.0.0.2''} \<and>
   card (dom (target_status (snd (send_target_metrics (example_config two_targets) accepting
      (every_probe refused later) fresh_monitor)))) = 2"
proof -
  let ?cfg = "example_config two_targets"
  let ?S = "send_target_metrics ?cfg accepting (every_probe refused later) fresh_monitor"
  have inv: "dom (target_status fresh_monitor) \<subseteq> set (monitor_targets ?cfg)"
    by (simp add: fresh_monitor_def)
  have f: "fst ?S = None"
    by (simp add: sweep_eval two_targets_def accepting_def send_target_metrics_def
        send_batches.simps put_metric_data_def)
  then have s: "?S = (None, snd ?S)" by (metis prod.collapse)
  have d: "distinct (monitor_targets ?cfg)" "set (monitor_targets ?cfg) = {''10.0.0.1'', ''10.0.0.2''}"
    "length (monitor_targets ?cfg) = 2"
    by (simp_all add: example_config_def two_targets_def)
  from target_status_keys_are_the_targets [OF inv, of "every_probe refused later" accepting]
  have "\<forall>r m'. ?S = (r, m') \<longrightarrow>
            dom (target_status m') \<subseteq> set (monitor_targets ?cfg) \<and>
            (r = None \<longrightarrow>
               dom (target_status m') = set (monitor_targets ?cfg) \<and>
               card (dom (target_status m')) = length (remdups (monitor_targets ?cfg)) \<and>
               (distinct (monitor_targets ?cfg) \<longrightarrow>
                  card (dom (target_status m')) = length (monitor_targets ?cfg)))" by blast
  with s d show ?thesis by metis
qed

theorem target_status_repeated_target_counterexample:
  "monitor_targets (example_config repeated_targets) = [''10.0.0.1'', ''10.0.0.1''] \<and>
   fst (send_target_metrics (example_config repeated_targets) accepting
      (every_probe reachable later) fresh_monitor) = None \<and>
   card (dom (target_status (snd (send_target_metrics (example_config repeated_targets) accepting
      (every_probe reachable later) fresh_monitor)))) = 1 \<and>
   length (monitor_targets (example_config repeated_targets)) = 2"
  by (simp add: repeated_targets_eq sweep_eval accepting_def send_target_metrics_def
      send_batches.simps put_metric_data_def)

end
